theory Spec2Isabelle
  imports Main "HOL-Library.Word"
begin

section \<open>Python values\<close>

text \<open>
  A Python \<open>str\<close> is a sequence of Unicode code points and \<open>len\<close> counts code points, so
  a string is modelled as a list of code points. \<open>py\<close> turns an ASCII literal into such a list.
\<close>

type_synonym str = "nat list"

definition py :: "string \<Rightarrow> str" where
  "py s = map of_char s"

text \<open>
  \<open>str.isspace\<close> for one code point: the characters that \<open>str.strip()\<close> removes when it is
  called without an argument.
\<close>

definition isspace :: "nat \<Rightarrow> bool" where
  "isspace c \<longleftrightarrow>
     (9 \<le> c \<and> c \<le> 13) \<or> (28 \<le> c \<and> c \<le> 32) \<or> c = 133 \<or> c = 160 \<or> c = 5760 \<or>
     (8192 \<le> c \<and> c \<le> 8202) \<or> c = 8232 \<or> c = 8233 \<or> c = 8239 \<or> c = 8287 \<or> c = 12288"

definition strip :: "str \<Rightarrow> str" where
  "strip s = rev (dropWhile isspace (rev (dropWhile isspace s)))"

definition startswith :: "str \<Rightarrow> str \<Rightarrow> bool" where
  "startswith s p \<longleftrightarrow> take (length p) s = p"

text \<open>\<open>contains s sub\<close> is Python's \<open>sub in s\<close>.\<close>

fun contains :: "str \<Rightarrow> str \<Rightarrow> bool" where
  "contains [] sub = (sub = [])"
| "contains (c # cs) sub = (startswith (c # cs) sub \<or> contains cs sub)"

text \<open>
  \<open>replace s old new\<close> is \<open>s.replace(old, new)\<close>: every occurrence of \<open>old\<close>, found from
  the left and not overlapping an earlier one, becomes \<open>new\<close>. With an empty \<open>old\<close> Python
  puts \<open>new\<close> before every character and at the end.
\<close>

function replace :: "str \<Rightarrow> str \<Rightarrow> str \<Rightarrow> str" where
  "replace [] old new = (if old = [] then new else [])"
| "replace (c # cs) old new =
     (if old = [] then new @ c # replace cs old new
      else if startswith (c # cs) old then new @ replace (drop (length old) (c # cs)) old new
      else c # replace cs old new)"
  by pat_completeness auto
termination
  by (relation "measure (\<lambda>(s, old, new). length s)") auto

text \<open>\<open>join sep xs\<close> is \<open>sep.join(xs)\<close>.\<close>

fun join :: "str \<Rightarrow> str list \<Rightarrow> str" where
  "join sep [] = []"
| "join sep [x] = x"
| "join sep (x # y # ys) = x @ sep @ join sep (y # ys)"

text \<open>
  \<open>path_join a b\<close> is \<open>os.path.join(a, b)\<close> on a POSIX system.
\<close>

definition path_join :: "str \<Rightarrow> str \<Rightarrow> str" where
  "path_join a b =
     (if startswith b (py ''/'') then b
      else if a = [] \<or> last a = of_char CHR ''/'' then a @ b
      else a @ py ''/'' @ b)"

text \<open>
  The values \<open>json.loads\<close> produces. A float is kept as its IEEE-754 bit pattern; an object
  is the list of its members.
\<close>

datatype json =
    JNull
  | JBool bool
  | JInt int
  | JFloat "64 word"
  | JStr str
  | JList "json list"
  | JDict "(str \<times> json) list"

text \<open>
  Exceptions: the \<open>HTTPException\<close> of the web framework with its status code and detail,
  and any other \<open>Exception\<close> with its message.
\<close>

datatype exn = HTTPException nat str | Exception str

section \<open>The world outside the program\<close>

text \<open>The settings \<open>extract_profile_data\<close> passes to the \<open>ChatGroq\<close> constructor.\<close>

record chat_groq =
  groq_api_key :: "str option"
  model_name :: str
  temperature :: int

text \<open>The calls the program makes to the outside, in the order it makes them.\<close>

datatype event =
    Chrome "str list" nat
  | Get nat str
  | Sleep nat
  | SaveScreenshot nat str
  | PageSource nat
  | Quit nat
  | ChatGroq chat_groq
  | Invoke str
  | Remove str
  | OpenW str
  | Dump str str

text \<open>
  The state a request runs in: the process environment, the files by path, the browser
  sessions that are alive, how many sessions were ever started, and the calls made so far.
\<close>

record world =
  environ :: "str \<rightharpoonup> str"
  files :: "str \<rightharpoonup> str"
  sessions :: "nat set"
  started :: nat
  history :: "event list"

text \<open>The nodes of a parsed document: elements with attributes and children, and strings
  of the classes the parser library distinguishes.\<close>

datatype string_kind =
    NavigableString | CData | Comment | Doctype | Declaration | ProcessingInstruction
  | Script | Stylesheet | TemplateString | RubyTextString | RubyParenthesisString

datatype node =
    Tag str "(str \<times> str) list" "node list"
  | Text string_kind str

text \<open>
  What the libraries and the operating system answer. None of this is code of the program:
  each field is a parameter, and a failure is the message of the exception raised.
  \<^item> \<open>getcwd\<close>: the working directory;
  \<^item> \<open>chrome_error\<close>: \<open>webdriver.Chrome(options)\<close> raising;
  \<^item> \<open>get_error\<close>: \<open>driver.get(url)\<close> raising;
  \<^item> \<open>save_screenshot\<close>: raising, or \<open>None\<close> when the image could not be written
    (the call then returns \<open>False\<close>), or the image written;
  \<^item> \<open>page_source\<close>: raising, or the markup of the page at the URL;
  \<^item> \<open>quit_error\<close>: \<open>driver.quit()\<close> raising;
  \<^item> \<open>html_parser\<close>: \<open>BeautifulSoup(html, "html.parser")\<close> raising on markup it
    rejects, or the children of the document it returns;
  \<^item> \<open>chat_groq_error\<close>: the \<open>ChatGroq\<close> constructor raising;
  \<^item> \<open>invoke\<close>: the chain's \<open>invoke\<close> raising, or the \<open>content\<close> of the answer;
  \<^item> \<open>json_loads\<close>: \<open>json.loads\<close>, \<open>None\<close> when it raises;
  \<^item> \<open>json_dump\<close>: the text \<open>json.dump(data, f, indent=4, ensure_ascii=False)\<close> writes;
  \<^item> \<open>remove_error\<close>, \<open>open_error\<close>: \<open>os.remove\<close> and \<open>open(path, "w")\<close> raising;
  \<^item> \<open>write_error\<close>: writing the text to the path failing after that many characters.
\<close>

record externals =
  getcwd :: str
  chrome_error :: "str list \<Rightarrow> str option"
  get_error :: "str \<Rightarrow> str option"
  save_screenshot :: "str \<Rightarrow> str + str option"
  page_source :: "str \<Rightarrow> str + str"
  quit_error :: "str option"
  html_parser :: "str \<Rightarrow> str + node list"
  chat_groq_error :: "chat_groq \<Rightarrow> str option"
  invoke :: "chat_groq \<Rightarrow> str \<Rightarrow> str + str"
  json_loads :: "str \<Rightarrow> json option"
  json_dump :: "json \<Rightarrow> str"
  remove_error :: "str \<Rightarrow> str option"
  open_error :: "str \<Rightarrow> str option"
  write_error :: "str \<Rightarrow> str \<Rightarrow> (nat \<times> str) option"

text \<open>A step of the program: it may raise, and it changes the world.\<close>

type_synonym 'a step = "world \<Rightarrow> (exn + 'a) \<times> world"

definition record_event :: "event \<Rightarrow> world \<Rightarrow> world" where
  "record_event e w = w\<lparr>history := history w @ [e]\<rparr>"

text \<open>Sequencing: an exception of the first step skips the second.\<close>

definition and_then :: "'a step \<Rightarrow> ('a \<Rightarrow> 'b step) \<Rightarrow> 'b step" where
  "and_then m f w = (case m w of (Inl e, w') \<Rightarrow> (Inl e, w') | (Inr x, w') \<Rightarrow> f x w')"

text \<open>\<open>try: body finally: cleanup\<close>: the cleanup runs whatever the body did, and an
  exception of the cleanup replaces the body's outcome.\<close>

definition try_finally :: "'a step \<Rightarrow> unit step \<Rightarrow> 'a step" where
  "try_finally body cleanup w =
     (case body w of (r, w') \<Rightarrow>
        (case cleanup w' of (Inl e, w'') \<Rightarrow> (Inl e, w'') | (Inr _, w'') \<Rightarrow> (r, w'')))"

section \<open>Selenium setup and page fetch\<close>

definition chrome_options :: "str list" where
  "chrome_options =
     [py ''--headless=new'', py ''--no-sandbox'', py ''--disable-dev-shm-usage'',
      py ''--window-size=1280,800'', py ''--disable-gpu'', py ''--disable-extensions'']"

definition init_driver :: "externals \<Rightarrow> nat step" where
  "init_driver X w =
     (case chrome_error X chrome_options of
        Some e \<Rightarrow> (Inl (HTTPException 500 (py ''Selenium init failed: '' @ e)), w)
      | None \<Rightarrow>
          (Inr (started w),
           record_event (Chrome chrome_options (started w))
             (w\<lparr>sessions := insert (started w) (sessions w), started := Suc (started w)\<rparr>)))"

definition driver_get :: "externals \<Rightarrow> nat \<Rightarrow> str \<Rightarrow> unit step" where
  "driver_get X d u w =
     (case get_error X u of
        Some e \<Rightarrow> (Inl (Exception e), record_event (Get d u) w)
      | None \<Rightarrow> (Inr (), record_event (Get d u) w))"

definition time_sleep :: "nat \<Rightarrow> unit step" where
  "time_sleep n w = (Inr (), record_event (Sleep n) w)"

definition driver_save_screenshot :: "externals \<Rightarrow> nat \<Rightarrow> str \<Rightarrow> bool step" where
  "driver_save_screenshot X d p w =
     (case save_screenshot X p of
        Inl e \<Rightarrow> (Inl (Exception e), record_event (SaveScreenshot d p) w)
      | Inr None \<Rightarrow> (Inr False, record_event (SaveScreenshot d p) w)
      | Inr (Some png) \<Rightarrow>
          (Inr True, record_event (SaveScreenshot d p) (w\<lparr>files := (files w)(p \<mapsto> png)\<rparr>)))"

definition driver_page_source :: "externals \<Rightarrow> nat \<Rightarrow> str \<Rightarrow> str step" where
  "driver_page_source X d u w =
     (case page_source X u of
        Inl e \<Rightarrow> (Inl (Exception e), record_event (PageSource d) w)
      | Inr html \<Rightarrow> (Inr html, record_event (PageSource d) w))"

definition driver_quit :: "externals \<Rightarrow> nat \<Rightarrow> unit step" where
  "driver_quit X d w =
     (let w' = record_event (Quit d) (w\<lparr>sessions := sessions w - {d}\<rparr>)
      in case quit_error X of Some e \<Rightarrow> (Inl (Exception e), w') | None \<Rightarrow> (Inr (), w'))"

definition fetch_profile_html :: "externals \<Rightarrow> str \<Rightarrow> str step" where
  "fetch_profile_html X profile_url =
     and_then (init_driver X) (\<lambda>driver.
       try_finally
         (and_then (driver_get X driver profile_url) (\<lambda>_.
          and_then (time_sleep 5) (\<lambda>_.
          and_then (driver_save_screenshot X driver (path_join (getcwd X) (py ''profile_ss.png''))) (\<lambda>_.
          driver_page_source X driver profile_url))))
         (driver_quit X driver))"

section \<open>Cleaning the markup\<close>

text \<open>
  \<open>soup(names)\<close> finds every element with one of the names, at any depth, and the loop
  decomposes each: the element and all below it leave the tree. What is left is the tree
  without the subtrees rooted at such elements.
\<close>

fun decompose :: "str list \<Rightarrow> node \<Rightarrow> node list" where
  "decompose names (Text k s) = [Text k s]"
| "decompose names (Tag n as cs) =
     (if n \<in> set names then [] else [Tag n as (concat (map (decompose names) cs))])"

text \<open>The strings below a node, in document order, each with its class.\<close>

fun all_strings :: "node \<Rightarrow> (string_kind \<times> str) list" where
  "all_strings (Text k s) = [(k, s)]"
| "all_strings (Tag n as cs) = concat (map all_strings cs)"

text \<open>
  \<open>get_text(separator, strip=True)\<close>: the strings of class \<open>NavigableString\<close> or \<open>CData\<close>,
  each stripped, the empty ones dropped, joined by the separator.
\<close>

definition stripped_strings :: "node list \<Rightarrow> str list" where
  "stripped_strings soup =
     filter (\<lambda>s. s \<noteq> [])
       (map (\<lambda>(k, s). strip s)
          (filter (\<lambda>(k, s). k = NavigableString \<or> k = CData) (concat (map all_strings soup))))"

definition get_text :: "str \<Rightarrow> node list \<Rightarrow> str" where
  "get_text separator soup = join separator (stripped_strings soup)"

definition removed_tags :: "str list" where
  "removed_tags = [py ''script'', py ''style'', py ''noscript'']"

definition clean_html :: "externals \<Rightarrow> str \<Rightarrow> exn + str" where
  "clean_html X html =
     (case html_parser X html of
        Inl e \<Rightarrow> Inl (Exception e)
      | Inr soup \<Rightarrow> Inr (get_text (py ''\<newline>'') (concat (map (decompose removed_tags) soup))))"

section \<open>Extraction with the language model\<close>

definition prompt_template :: str where
  "prompt_template = py (
     ''You are a precise data extraction model.\<newline>'' @
     ''Extract structured JSON from the given profile text with this schema:\<newline>'' @
     ''{\<newline>'' @
     ''  'name': string,\<newline>'' @
     ''  'headline': string,\<newline>'' @
     ''  'about': string,\<newline>'' @
     ''  'skills': [string, ...],\<newline>'' @
     ''  'experience': [{'role': string, 'company': string, 'duration': string}],\<newline>'' @
     ''  'education': [{'degree': string, 'institute': string, 'year': string}]\<newline>'' @
     ''}\<newline>'' @
     ''Return **only JSON**. No markdown.\<newline>\<newline>'' @
     ''Profile Text:\<newline>'')"

text \<open>Lines 97 to 101: the fences are removed, the text is stripped again and parsed; when
  the parser raises, the cleaned text is returned under the key \<open>raw\<close>.\<close>

definition clean_output :: "str \<Rightarrow> str" where
  "clean_output output = strip (replace (replace output (py ''```json'') []) (py ''```'') [])"

definition parse_output :: "externals \<Rightarrow> str \<Rightarrow> json" where
  "parse_output X output =
     (case json_loads X (clean_output output) of
        Some v \<Rightarrow> v
      | None \<Rightarrow> JDict [(py ''raw'', JStr (clean_output output))])"

definition llm_settings :: "world \<Rightarrow> chat_groq" where
  "llm_settings w =
     \<lparr>groq_api_key = environ w (py ''GROQ_API_KEY''),
      model_name = py ''llama-3.3-70b-versatile'',
      temperature = 0\<rparr>"

definition new_chat_groq :: "externals \<Rightarrow> chat_groq step" where
  "new_chat_groq X w =
     (case chat_groq_error X (llm_settings w) of
        Some e \<Rightarrow> (Inl (Exception e), record_event (ChatGroq (llm_settings w)) w)
      | None \<Rightarrow> (Inr (llm_settings w), record_event (ChatGroq (llm_settings w)) w))"

definition chain_invoke :: "externals \<Rightarrow> chat_groq \<Rightarrow> str \<Rightarrow> str step" where
  "chain_invoke X llm prompt w =
     (case invoke X llm prompt of
        Inl e \<Rightarrow> (Inl (Exception e), record_event (Invoke prompt) w)
      | Inr content \<Rightarrow> (Inr content, record_event (Invoke prompt) w))"

definition insufficient :: exn where
  "insufficient = HTTPException 400 (py ''Insufficient profile text extracted.'')"

definition extract_profile_data :: "externals \<Rightarrow> str \<Rightarrow> json step" where
  "extract_profile_data X text =
     (if text = [] \<or> length (strip text) < 100 then (\<lambda>w. (Inl insufficient, w))
      else
        and_then (new_chat_groq X) (\<lambda>llm.
        and_then (chain_invoke X llm (prompt_template @ text)) (\<lambda>content.
        (\<lambda>w. (Inr (parse_output X (strip content)), w)))))"

section \<open>Saving the record\<close>

definition os_remove :: "externals \<Rightarrow> str \<Rightarrow> unit step" where
  "os_remove X path w =
     (case remove_error X path of
        Some e \<Rightarrow> (Inl (Exception e), record_event (Remove path) w)
      | None \<Rightarrow> (Inr (), record_event (Remove path) (w\<lparr>files := (files w)(path := None)\<rparr>)))"

definition open_w :: "externals \<Rightarrow> str \<Rightarrow> unit step" where
  "open_w X path w =
     (case open_error X path of
        Some e \<Rightarrow> (Inl (Exception e), record_event (OpenW path) w)
      | None \<Rightarrow> (Inr (), record_event (OpenW path) (w\<lparr>files := (files w)(path \<mapsto> [])\<rparr>)))"

definition dump_to :: "externals \<Rightarrow> str \<Rightarrow> str \<Rightarrow> unit step" where
  "dump_to X path content w =
     (case write_error X path content of
        Some (n, e) \<Rightarrow>
          (Inl (Exception e),
           record_event (Dump path content) (w\<lparr>files := (files w)(path \<mapsto> take n content)\<rparr>))
      | None \<Rightarrow>
          (Inr (), record_event (Dump path content) (w\<lparr>files := (files w)(path \<mapsto> content)\<rparr>)))"

definition save_json :: "externals \<Rightarrow> json \<Rightarrow> str \<Rightarrow> str step" where
  "save_json X data_v filename =
     (let path = path_join (getcwd X) filename in
      and_then (\<lambda>w. if files w path \<noteq> None then os_remove X path w else (Inr (), w)) (\<lambda>_.
      and_then (open_w X path) (\<lambda>_.
      and_then (dump_to X path (json_dump X data_v)) (\<lambda>_.
      (\<lambda>w. (Inr path, w))))))"

section \<open>The route\<close>

record response =
  success :: bool
  url :: str
  screenshot :: str
  json_path :: str
  data :: json

definition profile_url_of :: "str \<Rightarrow> str" where
  "profile_url_of username =
     (if \<not> contains username (py ''naukri.com'')
      then py ''https://www.naukri.com/code360/profile/'' @ username
      else username)"

definition scrape_profile :: "externals \<Rightarrow> str \<Rightarrow> response step" where
  "scrape_profile X username =
     (let profile_url = profile_url_of username in
      and_then (fetch_profile_html X profile_url) (\<lambda>html.
      and_then (\<lambda>w. (clean_html X html, w)) (\<lambda>text.
      and_then (extract_profile_data X text) (\<lambda>extracted.
      and_then (save_json X extracted (py ''profile_data.json'')) (\<lambda>path.
      (\<lambda>w. (Inr \<lparr>success = True, url = profile_url, screenshot = py ''profile_ss.png'',
                  json_path = path, data = extracted\<rparr>, w)))))))"

section \<open>Notions used to state the properties\<close>

text \<open>
  The status a failure reaches the caller with: an \<open>HTTPException\<close> carries its own, and
  the web framework answers any other exception that leaves the route with status 500.
\<close>

fun status_code :: "exn \<Rightarrow> nat" where
  "status_code (HTTPException c d) = c"
| "status_code (Exception e) = 500"

text \<open>
  A sequence of calls treats browser sessions with discipline, starting from the set \<open>S\<close>
  of sessions alive, when a session is started only while it is not alive, is driven and
  quit only while it is alive, and no session is alive at the end.
\<close>

fun disciplined :: "nat set \<Rightarrow> event list \<Rightarrow> bool" where
  "disciplined S [] = (S = {})"
| "disciplined S (Chrome opts d # es) = (d \<notin> S \<and> disciplined (insert d S) es)"
| "disciplined S (Quit d # es) = (d \<in> S \<and> disciplined (S - {d}) es)"
| "disciplined S (Get d u # es) = (d \<in> S \<and> disciplined S es)"
| "disciplined S (SaveScreenshot d p # es) = (d \<in> S \<and> disciplined S es)"
| "disciplined S (PageSource d # es) = (d \<in> S \<and> disciplined S es)"
| "disciplined S (e # es) = disciplined S es"

text \<open>The calls that do not touch a browser session.\<close>

fun neutral :: "event \<Rightarrow> bool" where
  "neutral (Sleep n) = True"
| "neutral (ChatGroq c) = True"
| "neutral (Invoke p) = True"
| "neutral (Remove p) = True"
| "neutral (OpenW p) = True"
| "neutral (Dump p c) = True"
| "neutral e = False"

text \<open>
  The strings of a document that lie outside every \<open>script\<close>, \<open>style\<close> and \<open>noscript\<close>
  element and are ordinary text, in document order.
\<close>

fun visible_strings :: "node \<Rightarrow> str list" where
  "visible_strings (Text k s) = (if k = NavigableString \<or> k = CData then [s] else [])"
| "visible_strings (Tag n as cs) =
     (if n \<in> set removed_tags then [] else concat (map visible_strings cs))"

text \<open>The strings of a document that lie inside a \<open>script\<close>, \<open>style\<close> or \<open>noscript\<close>
  element.\<close>

fun removed_strings :: "node \<Rightarrow> str list" where
  "removed_strings (Text k s) = []"
| "removed_strings (Tag n as cs) =
     (if n \<in> set removed_tags then map snd (all_strings (Tag n as cs))
      else concat (map removed_strings cs))"

text \<open>
  Two documents differ only where it cannot be seen: they have the same elements and the
  same ordinary strings in the same places, while anything may stand below a \<open>script\<close>,
  \<open>style\<close> or \<open>noscript\<close> element, strings of the other classes may differ, and so may
  the attributes.
\<close>

inductive same_outside :: "node \<Rightarrow> node \<Rightarrow> bool" where
  text_same: "same_outside (Text k s) (Text k s)"
| hidden_same: "k \<noteq> NavigableString \<Longrightarrow> k \<noteq> CData \<Longrightarrow> k' \<noteq> NavigableString \<Longrightarrow>
     k' \<noteq> CData \<Longrightarrow> same_outside (Text k s) (Text k' s')"
| removed_same: "n \<in> set removed_tags \<Longrightarrow> n' \<in> set removed_tags \<Longrightarrow>
     same_outside (Tag n as cs) (Tag n' as' cs')"
| kept_same: "n \<notin> set removed_tags \<Longrightarrow> list_all2 same_outside cs cs' \<Longrightarrow>
     same_outside (Tag n as cs) (Tag n as' cs')"

text \<open>
  A page with 150 letters in a paragraph, and what the parser answers on a few documents:
  the empty one, that page, a word in a script and in a paragraph, a style sheet before a
  paragraph, escaped angle brackets (which the parser decodes), a malformed marked section
  (which it rejects), and text without markup.
\<close>

definition demo_page :: str where
  "demo_page = py ''<p>'' @ replicate 150 97 @ py ''</p>''"

definition sample_parser :: "str \<Rightarrow> str + node list" where
  \<open>sample_parser m =
     (if m = [] then Inr []
      else if m = py ''<script>a</script><p>a</p>''
      then Inr [Tag (py ''script'') [] [Text Script (py ''a'')],
                Tag (py ''p'') [] [Text NavigableString (py ''a'')]]
      else if m = py ''<style media="all">p {color: red}</style><p id="x">a</p>''
      then Inr [Tag (py ''style'') [(py ''media'', py ''all'')]
                  [Text Stylesheet (py ''p {color: red}'')],
                Tag (py ''p'') [(py ''id'', py ''x'')] [Text NavigableString (py ''a'')]]
      else if m = py ''<p>&lt;b&gt;</p>''
      then Inr [Tag (py ''p'') [] [Text NavigableString (py ''<b>'')]]
      else if m = py ''<![xyz]]>''
      then Inl (py ''The markup you provided was rejected by the parser.'')
      else if m = demo_page
      then Inr [Tag (py ''p'') [] [Text NavigableString (replicate 150 97)]]
      else Inr [Text NavigableString m])\<close>

text \<open>
  An environment in which no call to the browser, the model or the file system fails and
  the page is empty, and an initial state, to run the program on concrete inputs.
\<close>

definition calm :: externals where
  "calm =
     \<lparr>getcwd = py ''/app'',
      chrome_error = (\<lambda>_. None),
      get_error = (\<lambda>_. None),
      save_screenshot = (\<lambda>_. Inr (Some (py ''png''))),
      page_source = (\<lambda>_. Inr []),
      quit_error = None,
      html_parser = sample_parser,
      chat_groq_error = (\<lambda>_. None),
      invoke = (\<lambda>_ _. Inr []),
      json_loads = (\<lambda>_. None),
      json_dump = (\<lambda>_. py ''null''),
      remove_error = (\<lambda>_. None),
      open_error = (\<lambda>_. None),
      write_error = (\<lambda>_ _. None)\<rparr>"

definition start :: world where
  "start = \<lparr>environ = Map.empty, files = Map.empty, sessions = {}, started = 0, history = []\<rparr>"

text \<open>
  An environment in which the page with 150 letters is rendered, the model answers with
  a JSON object that \<open>json.loads\<close> accepts, and that object is written with an
  indentation of four.
\<close>

definition demo :: externals where
  \<open>demo = calm
     \<lparr>page_source := (\<lambda>_. Inr demo_page),
      invoke := (\<lambda>_ _. Inr (py ''{"name":"A"}'')),
      json_loads := (\<lambda>s. if s = py ''{"name":"A"}''
                          then Some (JDict [(py ''name'', JStr (py ''A''))]) else None),
      json_dump := (\<lambda>v. if v = JDict [(py ''name'', JStr (py ''A''))]
                         then py ''{\<newline>    "name": "A"\<newline>}'' else py ''null'')\<rparr>\<close>

text \<open>The status, if any, a request fails with.\<close>

definition failure_status :: "(exn + 'a) \<times> world \<Rightarrow> nat option" where
  "failure_status r = (case fst r of Inl e \<Rightarrow> Some (status_code e) | Inr _ \<Rightarrow> None)"

text \<open>
  Three environments with one failure each: the browser does not start, the page cannot
  be reached, the output file cannot be opened.
\<close>

definition no_chrome :: externals where
  "no_chrome = demo\<lparr>chrome_error := (\<lambda>_. Some (py ''chrome not found''))\<rparr>"

definition offline :: externals where
  "offline = demo\<lparr>get_error := (\<lambda>_. Some (py ''net::ERR_NAME_NOT_RESOLVED''))\<rparr>"

definition denied :: externals where
  "denied = demo\<lparr>open_error := (\<lambda>_. Some (py ''Permission denied''))\<rparr>"

section \<open>Facts about the string operations\<close>

lemma startswith_iff: "startswith s p \<longleftrightarrow> (\<exists>q. s = p @ q)"
  unfolding startswith_def
  by (metis append_eq_conv_conj append_take_drop_id)

lemma contains_iff: "contains s sub \<longleftrightarrow> (\<exists>p q. s = p @ sub @ q)"
proof (induction s)
  case Nil
  then show ?case by auto
next
  case (Cons c cs)
  show ?case
  proof
    assume "contains (c # cs) sub"
    then consider "startswith (c # cs) sub" | "contains cs sub" by auto
    then show "\<exists>p q. c # cs = p @ sub @ q"
    proof cases
      case 1
      then obtain q where "c # cs = sub @ q" using startswith_iff by blast
      then have "c # cs = [] @ sub @ q" by simp
      then show ?thesis by blast
    next
      case 2
      then obtain p q where "cs = p @ sub @ q" using Cons.IH by blast
      then have "c # cs = (c # p) @ sub @ q" by simp
      then show ?thesis by blast
    qed
  next
    assume "\<exists>p q. c # cs = p @ sub @ q"
    then obtain p q where pq: "c # cs = p @ sub @ q" by blast
    show "contains (c # cs) sub"
    proof (cases p)
      case Nil
      with pq have "startswith (c # cs) sub" using startswith_iff by auto
      then show ?thesis by simp
    next
      case (Cons a p')
      with pq have "cs = p' @ sub @ q" by simp
      then have "contains cs sub" using Cons.IH by blast
      then show ?thesis by simp
    qed
  qed
qed

lemma length_strip_le: "length (strip s) \<le> length s"
  unfolding strip_def
  by (metis length_dropWhile_le length_rev order_trans)

lemma strip_Nil [simp]: "strip [] = []"
  by (simp add: strip_def)

lemma strip_ends:
  assumes "s \<noteq> []" "\<not> isspace (hd s)" "\<not> isspace (last s)"
  shows "strip s = s"
proof -
  from assms have 1: "dropWhile isspace s = s" by (cases s) auto
  from assms have "rev s \<noteq> []" "\<not> isspace (hd (rev s))" by (simp_all add: hd_rev)
  then have 2: "dropWhile isspace (rev s) = rev s" by (cases "rev s") auto
  show ?thesis by (simp add: strip_def 1 2)
qed

lemma strip_cases: "strip s = [] \<or> (\<not> isspace (hd (strip s)) \<and> \<not> isspace (last (strip s)))"
proof (cases "strip s = []")
  case True then show ?thesis by simp
next
  case False
  let ?a = "dropWhile isspace s"
  let ?b = "dropWhile isspace (rev ?a)"
  from False have b: "?b \<noteq> []" by (simp add: strip_def)
  have a: "?a \<noteq> []"
  proof
    assume "?a = []"
    then have "?b = []" by (metis dropWhile.simps(1) rev.simps(1))
    with b show False by simp
  qed
  have l: "\<not> isspace (hd ?b)" using b hd_dropWhile by blast
  have "last (strip s) = hd ?b" using b by (simp add: strip_def last_rev)
  with l have L: "\<not> isspace (last (strip s))" by simp
  have "\<not> isspace (hd ?a)" using a hd_dropWhile by blast
  moreover have "hd (strip s) = hd ?a"
  proof -
    have "last (rev ?a) = hd ?a" using a by (simp add: last_rev)
    obtain ys where ys: "rev ?a = takeWhile isspace (rev ?a) @ ?b" by simp
    have "last (rev ?a) = last ?b" using b
      by (metis last_appendR takeWhile_dropWhile_id)
    then have "hd ?a = last ?b" using \<open>last (rev ?a) = hd ?a\<close> by simp
    moreover have "hd (strip s) = last ?b" using b by (simp add: strip_def hd_rev)
    ultimately show ?thesis by simp
  qed
  ultimately show ?thesis using L by simp
qed

lemma strip_strip [simp]: "strip (strip s) = strip s"
proof (cases "strip s = []")
  case True
  then show ?thesis by simp
next
  case False
  then show ?thesis using strip_cases [of s] strip_ends [of "strip s"] by blast
qed

lemma replace_skip:
  "old \<noteq> [] \<Longrightarrow> hd old \<notin> set b \<Longrightarrow> replace (b @ t) old new = b @ replace t old new"
proof (induction b)
  case Nil
  then show ?case by simp
next
  case (Cons c cs)
  then have "\<not> startswith (c # cs @ t) old"
    by (cases old) (auto simp: startswith_def)
  with Cons show ?case by simp
qed

lemma clean_output_plain:
  assumes "96 \<notin> set body"
  shows "clean_output body = strip body"
proof -
  have "replace (body @ []) old [] = body @ replace [] old []" if "old \<noteq> []" "hd old = 96" for old
    using assms that by (intro replace_skip) simp_all
  then have "replace body (py ''```json'') [] = body" "replace body (py ''```'') [] = body"
    by (simp_all add: py_def)
  then show ?thesis by (simp add: clean_output_def)
qed

lemma set_strip: "set (strip s) \<subseteq> set s"
  unfolding strip_def
  by (metis set_dropWhileD set_rev subsetI)

lemma strip_replicate: "\<not> isspace c \<Longrightarrow> strip (replicate n c) = replicate n c"
proof (cases n)
  case 0
  then show ?thesis by simp
next
  case (Suc m)
  assume c: "\<not> isspace c"
  have "replicate n c \<noteq> []" using Suc by simp
  moreover have "hd (replicate n c) = c" using Suc by simp
  moreover have "last (replicate n c) = c" using Suc by (simp del: replicate.simps)
  ultimately show ?thesis using c by (simp add: strip_ends del: replicate.simps)
qed

section \<open>Sequencing\<close>

lemma and_then_Inr: "m w = (Inr x, w') \<Longrightarrow> and_then m f w = f x w'"
  by (simp add: and_then_def)

lemma and_then_Inl: "m w = (Inl e, w') \<Longrightarrow> and_then m f w = (Inl e, w')"
  by (simp add: and_then_def)

lemma and_then_result:
  "and_then m f w = (Inr y, w'') \<Longrightarrow> \<exists>x w'. m w = (Inr x, w') \<and> f x w' = (Inr y, w'')"
  by (auto simp: and_then_def split: prod.splits sum.splits)

section \<open>Fence stripping\<close>

lemma startswith_append_tail:
  assumes "old \<noteq> []" "last old \<notin> set r"
  shows "startswith (b @ r) old \<longleftrightarrow> startswith b old"
proof
  assume "startswith b old"
  then obtain q where "b = old @ q" using startswith_iff by blast
  then have "b @ r = old @ (q @ r)" by simp
  then show "startswith (b @ r) old" using startswith_iff by blast
next
  assume "startswith (b @ r) old"
  then obtain q where "b @ r = old @ q" using startswith_iff by blast
  then consider us where "b = old @ us" | us where "b @ us = old" "r = us @ q"
    by (auto simp: append_eq_append_conv2)
  then show "startswith b old"
  proof cases
    case 1
    then show ?thesis using startswith_iff by blast
  next
    case 2
    show ?thesis
    proof (cases "us = []")
      case True
      with 2 have "b = old @ []" by simp
      then show ?thesis using startswith_iff by blast
    next
      case False
      with 2 have "last old = last us" by auto
      with False have "last old \<in> set us" by simp
      with 2 assms show ?thesis by simp
    qed
  qed
qed

lemma replace_no_match:
  assumes "old \<noteq> []" "last old \<notin> set r"
  shows "replace r old new = r"
  using assms
proof (induction r)
  case Nil
  then show ?case by simp
next
  case (Cons c cs)
  have "\<not> startswith (c # cs) old"
  proof
    assume "startswith (c # cs) old"
    then obtain q where "c # cs = old @ q" using startswith_iff by blast
    with Cons(2) have "last old \<in> set (c # cs)"
      by (metis last_in_set in_set_conv_decomp append_assoc Un_iff set_append)
    with Cons(3) show False by simp
  qed
  with Cons show ?case by simp
qed

lemma drop_append_short: "n \<le> length xs \<Longrightarrow> drop n (xs @ r) = drop n xs @ r"
  by simp

lemma replace_tail:
  assumes "old \<noteq> []" "last old \<notin> set r"
  shows "replace (b @ r) old new = replace b old new @ r"
  using assms
proof (induction b old new rule: replace.induct)
  case (1 old new)
  then show ?case by (simp add: replace_no_match)
next
  case (2 c cs old new)
  note sw = startswith_append_tail [OF 2(4,5), of "c # cs"]
  show ?case
  proof (cases "startswith (c # cs) old")
    case True
    then have len: "length old \<le> length (c # cs)"
      by (metis startswith_iff length_append le_add1)
    from True sw have "startswith ((c # cs) @ r) old" by simp
    moreover have "drop (length old) ((c # cs) @ r) = drop (length old) (c # cs) @ r"
      using len by (rule drop_append_short)
    ultimately show ?thesis using 2 True by simp
  next
    case False
    with sw have "\<not> startswith ((c # cs) @ r) old" by simp
    with False 2 show ?thesis by simp
  qed
qed

lemma replace_fence_end:
  "replace (b @ py ''```'') (py ''```'') [] = replace b (py ''```'') []"
proof (induction b "py ''```''" "[] :: str" rule: replace.induct)
  case 1
  then show ?case by (simp add: py_def startswith_def)
next
  case (2 c cs)
  let ?F = "py ''```''"
  have F: "?F = [96, 96, 96]" by (simp add: py_def)
  show ?case
  proof (cases "startswith (c # cs) ?F")
    case True
    then have len: "length ?F \<le> length (c # cs)"
      by (metis startswith_iff length_append le_add1)
    from True have "startswith ((c # cs) @ ?F) ?F"
      by (metis startswith_iff append_assoc)
    moreover have "drop (length ?F) ((c # cs) @ ?F) = drop (length ?F) (c # cs) @ ?F"
      using len by (rule drop_append_short)
    ultimately show ?thesis using 2 True by (simp add: F)
  next
    case False
    show ?thesis
    proof (cases "startswith ((c # cs) @ ?F) ?F")
      case sw: False
      with False 2 show ?thesis by (simp add: F)
    next
      case sw: True
      have "c # cs = [96] \<or> c # cs = [96, 96]"
        using sw False unfolding F startswith_def
        by (cases cs; cases "tl cs"; cases "tl (tl cs)") (auto split: if_splits)
      then show ?thesis
        by (auto simp: F startswith_def)
    qed
  qed
qed


lemma strip_decomp:
  "\<exists>l r. b = l @ strip b @ r \<and> (\<forall>c\<in>set l. isspace c) \<and> (\<forall>c\<in>set r. isspace c)"
proof -
  let ?d = "dropWhile isspace b"
  let ?l = "takeWhile isspace b"
  let ?r = "rev (takeWhile isspace (rev ?d))"
  have "?d = rev (rev ?d)" by simp
  also have "\<dots> = rev (takeWhile isspace (rev ?d) @ dropWhile isspace (rev ?d))"
    by (simp only: takeWhile_dropWhile_id)
  also have "\<dots> = strip b @ ?r" by (simp only: rev_append strip_def)
  finally have "?d = strip b @ ?r" .
  moreover have "b = ?l @ ?d" by simp
  ultimately have "b = ?l @ strip b @ ?r" by simp
  moreover have "\<forall>c\<in>set ?l. isspace c" by (meson set_takeWhileD)
  moreover have "\<forall>c\<in>set ?r. isspace c" by (metis set_rev set_takeWhileD)
  ultimately show ?thesis by blast
qed

lemma strip_pad:
  assumes "\<forall>c\<in>set l. isspace c" "\<forall>c\<in>set r. isspace c"
  shows "strip (l @ x @ r) = strip x"
proof -
  have 1: "dropWhile isspace (l @ x @ r) = dropWhile isspace (x @ r)"
    using assms(1) by (simp add: dropWhile_append)
  show ?thesis
  proof (cases "\<forall>c\<in>set x. isspace c")
    case True
    have a: "dropWhile isspace (x @ r) = []" using True assms(2) by simp
    have b: "dropWhile isspace x = []" using True by simp
    show ?thesis unfolding strip_def 1 a b ..
  next
    case False
    then obtain c where "c \<in> set x" "\<not> isspace c" by blast
    then have a: "dropWhile isspace (x @ r) = dropWhile isspace x @ r"
      by (rule dropWhile_append1)
    have b: "dropWhile isspace (rev r @ ys) = dropWhile isspace ys" for ys
      using assms(2) by (simp add: dropWhile_append)
    show ?thesis unfolding strip_def 1 a rev_append b ..
  qed
qed

lemma clean_output_pad:
  assumes "\<forall>c\<in>set l. isspace c" "\<forall>c\<in>set r. isspace c"
  shows "clean_output (l @ x @ r) = clean_output x"
proof -
  have nl: "96 \<notin> set l" and nr: "96 \<notin> set r" "110 \<notin> set r"
    using assms by (auto simp: isspace_def)
  have J: "py ''```json'' \<noteq> []" "hd (py ''```json'') = 96" "last (py ''```json'') = 110"
    and F: "py ''```'' \<noteq> []" "hd (py ''```'') = 96" "last (py ''```'') = 96"
    by (simp_all add: py_def)
  have 1: "replace (l @ x @ r) (py ''```json'') [] = l @ replace x (py ''```json'') [] @ r"
  proof -
    have "replace (l @ (x @ r)) (py ''```json'') [] = l @ replace (x @ r) (py ''```json'') []"
      using J nl by (intro replace_skip) simp_all
    moreover have "replace (x @ r) (py ''```json'') [] = replace x (py ''```json'') [] @ r"
      using J nr by (intro replace_tail) simp_all
    ultimately show ?thesis by simp
  qed
  have 2: "replace (l @ y @ r) (py ''```'') [] = l @ replace y (py ''```'') [] @ r" for y
  proof -
    have "replace (l @ (y @ r)) (py ''```'') [] = l @ replace (y @ r) (py ''```'') []"
      using F nl by (intro replace_skip) simp_all
    moreover have "replace (y @ r) (py ''```'') [] = replace y (py ''```'') [] @ r"
      using F nr by (intro replace_tail) simp_all
    ultimately show ?thesis by simp
  qed
  show ?thesis
    unfolding clean_output_def 1 2 using assms by (rule strip_pad)
qed

lemma clean_output_strip: "clean_output (strip b) = clean_output b"
proof -
  obtain l r where "b = l @ strip b @ r" "\<forall>c\<in>set l. isspace c" "\<forall>c\<in>set r. isspace c"
    using strip_decomp by blast
  then show ?thesis using clean_output_pad [of l r "strip b"] by simp
qed

lemma clean_output_fence:
  "clean_output (py ''```json'' @ body @ py ''```'') = clean_output body"
proof -
  have 1: "replace (py ''```json'' @ body @ py ''```'') (py ''```json'') [] =
           replace (body @ py ''```'') (py ''```json'') []"
    by (simp add: py_def startswith_def)
  have 2: "replace (body @ py ''```'') (py ''```json'') [] =
           replace body (py ''```json'') [] @ py ''```''"
    by (rule replace_tail) (simp_all add: py_def)
  show ?thesis
    unfolding clean_output_def 1 2 replace_fence_end ..
qed

text \<open>The fields of the example environment.\<close>

lemma demo_fields:
  "getcwd demo = py ''/app''" "chrome_error demo = (\<lambda>_. None)" "get_error demo = (\<lambda>_. None)"
  "save_screenshot demo = (\<lambda>_. Inr (Some (py ''png'')))" "page_source demo = (\<lambda>_. Inr demo_page)"
  "quit_error demo = None" "chat_groq_error demo = (\<lambda>_. None)"
  "html_parser demo = sample_parser"
  \<open>invoke demo = (\<lambda>_ _. Inr (py ''{"name":"A"}''))\<close>
  \<open>json_loads demo = (\<lambda>s. if s = py ''{"name":"A"}''
                          then Some (JDict [(py ''name'', JStr (py ''A''))]) else None)\<close>
  "remove_error demo = (\<lambda>_. None)" "open_error demo = (\<lambda>_. None)"
  "write_error demo = (\<lambda>_ _. None)"
  by (simp_all add: demo_def calm_def)

text \<open>
  Claim C4. The fence markers are removed before parsing. For every body, the answer
  \<open>```json\<close> body \<open>```\<close> is cleaned to the same text, and parsed to the same record, as
  the body alone. When the body has no backquote of its own, that text is the stripped
  body: the markers are gone and nothing else is. The claim's example is the body
  \<open>\<newline>{"name":"A"}\<newline>\<close>, in the witness.
\<close>

theorem fence_stripping:
  "clean_output (strip (py ''```json'' @ body @ py ''```'')) = clean_output (strip body) \<and>
   parse_output X (strip (py ''```json'' @ body @ py ''```'')) = parse_output X (strip body) \<and>
   (96 \<notin> set body \<longrightarrow>
      clean_output (strip (py ''```json'' @ body @ py ''```'')) = strip body \<and>
      clean_output (strip body) = strip body \<and>
      parse_output X (strip (py ''```json'' @ body @ py ''```'')) =
        (case json_loads X (strip body) of
           Some v \<Rightarrow> v | None \<Rightarrow> JDict [(py ''raw'', JStr (strip body))]))"
proof -
  have eq: "clean_output (strip (py ''```json'' @ body @ py ''```'')) = clean_output (strip body)"
    by (simp add: clean_output_strip clean_output_fence)
  have plain: "clean_output (strip body) = strip body" if "96 \<notin> set body"
  proof -
    from that have "96 \<notin> set (strip body)" using set_strip by blast
    then show ?thesis by (simp add: clean_output_plain)
  qed
  have p: "parse_output X (strip (py ''```json'' @ body @ py ''```'')) = parse_output X (strip body)"
    unfolding parse_output_def eq ..
  have q: "parse_output X (strip (py ''```json'' @ body @ py ''```'')) =
        (case json_loads X (strip body) of
           Some v \<Rightarrow> v | None \<Rightarrow> JDict [(py ''raw'', JStr (strip body))])" if "96 \<notin> set body"
    unfolding parse_output_def eq plain [OF that] ..
  from eq p plain q show ?thesis by simp
qed

theorem fence_stripping_witness:
  \<open>clean_output (strip (py ''```json\<newline>{"name":"A"}\<newline>```'')) = py ''{"name":"A"}'' \<and>
   clean_output (strip (py ''{"name":"A"}'')) = py ''{"name":"A"}'' \<and>
   parse_output demo (strip (py ''```json\<newline>{"name":"A"}\<newline>```'')) =
     JDict [(py ''name'', JStr (py ''A''))] \<and>
   parse_output demo (strip (py ''{"name":"A"}'')) = JDict [(py ''name'', JStr (py ''A''))]\<close>
proof -
  have n: \<open>96 \<notin> set (py ''\<newline>{"name":"A"}\<newline>'')\<close> by (simp add: py_def)
  have e: \<open>py ''```json\<newline>{"name":"A"}\<newline>```'' = py ''```json'' @ py ''\<newline>{"name":"A"}\<newline>'' @ py ''```''\<close>
    by (simp add: py_def)
  have s: \<open>strip (py ''\<newline>{"name":"A"}\<newline>'') = py ''{"name":"A"}''\<close>
    by (simp add: py_def strip_def isspace_def)
  have s2: \<open>strip (py ''{"name":"A"}'') = py ''{"name":"A"}''\<close>
    by (simp add: py_def strip_def isspace_def)
  have l: \<open>json_loads demo (py ''{"name":"A"}'') = Some (JDict [(py ''name'', JStr (py ''A''))])\<close>
    by (simp add: demo_fields)
  note f = fence_stripping [of \<open>py ''\<newline>{"name":"A"}\<newline>''\<close> demo, folded e, unfolded s]
  from f n have A: \<open>clean_output (strip (py ''```json\<newline>{"name":"A"}\<newline>```'')) = py ''{"name":"A"}''\<close>
    and B: \<open>clean_output (py ''{"name":"A"}'') = py ''{"name":"A"}''\<close>
    and C: \<open>parse_output demo (strip (py ''```json\<newline>{"name":"A"}\<newline>```'')) =
        (case json_loads demo (py ''{"name":"A"}'') of
           Some v \<Rightarrow> v | None \<Rightarrow> JDict [(py ''raw'', JStr (py ''{"name":"A"}''))])\<close>
    and D: \<open>parse_output demo (strip (py ''```json\<newline>{"name":"A"}\<newline>```'')) =
        parse_output demo (py ''{"name":"A"}'')\<close>
    by blast+
  from C have C': \<open>parse_output demo (strip (py ''```json\<newline>{"name":"A"}\<newline>```'')) =
      JDict [(py ''name'', JStr (py ''A''))]\<close>
    unfolding l by simp
  from A B C' D show ?thesis unfolding s2 by simp
qed

section \<open>The input guard\<close>

lemma extract_guard:
  "fst (extract_profile_data X text w) = Inl insufficient \<longleftrightarrow> length (strip text) < 100"
  by (auto simp: extract_profile_data_def and_then_def new_chat_groq_def chain_invoke_def
        insufficient_def split: option.splits sum.splits)

text \<open>
  Claim C2. \<open>extract_profile_data\<close> raises the bad-input exception (status 400) exactly
  when the stripped text has fewer than 100 characters, and then nothing else has happened.
  A text of 50 characters raises it whatever it contains. A text whose stripped length is
  at least 100 (the claim's 150) goes on: the next call is the construction of the model
  client, and when that succeeds the model is invoked with the prompt ending in the text.
\<close>

theorem input_guard:
  "(fst (extract_profile_data X text w) = Inl insufficient \<longleftrightarrow> length (strip text) < 100) \<and>
   (status_code insufficient = 400) \<and>
   (length (strip text) < 100 \<longrightarrow> extract_profile_data X text w = (Inl insufficient, w)) \<and>
   (length text = 50 \<longrightarrow> extract_profile_data X text w = (Inl insufficient, w)) \<and>
   (100 \<le> length (strip text) \<longrightarrow>
      (\<exists>evs. history (snd (extract_profile_data X text w)) =
         history w @ ChatGroq (llm_settings w) # evs) \<and>
      (chat_groq_error X (llm_settings w) = None \<longrightarrow>
         history (snd (extract_profile_data X text w)) =
           history w @ [ChatGroq (llm_settings w), Invoke (prompt_template @ text)]))"
proof -
  have le: "length (strip text) \<le> length text" by (rule length_strip_le)
  have a: "length (strip text) < 100 \<Longrightarrow> extract_profile_data X text w = (Inl insufficient, w)"
    by (simp add: extract_profile_data_def)
  have b: "length text = 50 \<Longrightarrow> extract_profile_data X text w = (Inl insufficient, w)"
    using le a by simp
  have c: "100 \<le> length (strip text) \<Longrightarrow>
      \<exists>evs. history (snd (extract_profile_data X text w)) =
         history w @ ChatGroq (llm_settings w) # evs"
    by (auto simp: extract_profile_data_def and_then_def new_chat_groq_def chain_invoke_def
          record_event_def split: option.splits sum.splits)
  have d: "100 \<le> length (strip text) \<Longrightarrow> chat_groq_error X (llm_settings w) = None \<Longrightarrow>
         history (snd (extract_profile_data X text w)) =
           history w @ [ChatGroq (llm_settings w), Invoke (prompt_template @ text)]"
    by (auto simp: extract_profile_data_def and_then_def new_chat_groq_def chain_invoke_def
          record_event_def llm_settings_def split: option.splits sum.splits)
  show ?thesis using extract_guard a b c d by (simp add: insufficient_def)
qed

theorem input_guard_witness:
  "extract_profile_data calm (replicate 50 97) start = (Inl insufficient, start) \<and>
   history (snd (extract_profile_data calm (replicate 150 97) start)) =
     [ChatGroq (llm_settings start), Invoke (prompt_template @ replicate 150 97)] \<and>
   fst (extract_profile_data calm (replicate 150 97) start) \<noteq> Inl insufficient"
proof -
  have s50: "length (strip (replicate 50 97)) < 100"
    using length_strip_le [of "replicate 50 97"] by simp
  have l50: "length (replicate 50 (97::nat)) = 50" by simp
  have s150: "100 \<le> length (strip (replicate 150 97))"
    by (simp add: strip_replicate isspace_def)
  have ok: "chat_groq_error calm (llm_settings start) = None" by (simp add: calm_def)
  have h: "history start = []" by (simp add: start_def)
  note g = input_guard [of calm "replicate 50 97" start]
  note g' = input_guard [of calm "replicate 150 97" start]
  from g s50 have 0: "extract_profile_data calm (replicate 50 97) start = (Inl insufficient, start)"
    by blast
  from g l50 have 1: "extract_profile_data calm (replicate 50 97) start = (Inl insufficient, start)"
    by blast
  from g' s150 ok have 2: "history (snd (extract_profile_data calm (replicate 150 97) start)) =
     history start @ [ChatGroq (llm_settings start), Invoke (prompt_template @ replicate 150 97)]"
    by blast
  from g' s150 have 3: "fst (extract_profile_data calm (replicate 150 97) start) \<noteq> Inl insufficient"
    by auto
  from 1 2 3 h show ?thesis by simp
qed

section \<open>The fallback record\<close>

text \<open>
  Claim C1. When the guard lets the text pass and the model answers, and \<open>json.loads\<close>
  raises on the cleaned answer (stripped, fences removed, stripped again), then
  \<open>extract_profile_data\<close> returns the record with the single key \<open>raw\<close> holding the
  cleaned answer, and raises nothing. The witness is the answer
  \<open>I cannot process this\<close>.
\<close>

theorem parse_fallback:
  assumes "100 \<le> length (strip text)"
    and "chat_groq_error X (llm_settings w) = None"
    and "invoke X (llm_settings w) (prompt_template @ text) = Inr answer"
    and "json_loads X (clean_output (strip answer)) = None"
  shows "fst (extract_profile_data X text w) =
           Inr (JDict [(py ''raw'', JStr (clean_output (strip answer)))])"
  using assms
  by (auto simp: extract_profile_data_def and_then_def new_chat_groq_def chain_invoke_def
        parse_output_def)

theorem parse_fallback_witness:
  "fst (extract_profile_data (demo\<lparr>invoke := (\<lambda>_ _. Inr (py ''I cannot process this''))\<rparr>)
         (replicate 100 97) start) =
     Inr (JDict [(py ''raw'', JStr (py ''I cannot process this''))])"
proof -
  let ?X = "demo\<lparr>invoke := (\<lambda>_ _. Inr (py ''I cannot process this''))\<rparr>"
  have 1: "100 \<le> length (strip (replicate 100 97))"
    by (simp add: strip_replicate isspace_def)
  have 2: "chat_groq_error ?X (llm_settings start) = None" by (simp add: demo_def calm_def llm_settings_def py_def)
  have 3: "invoke ?X (llm_settings start) (prompt_template @ replicate 100 97) =
             Inr (py ''I cannot process this'')" by simp
  have c: "clean_output (strip (py ''I cannot process this'')) = py ''I cannot process this''"
    by (simp add: clean_output_def strip_def isspace_def py_def startswith_def)
  have 4: "json_loads ?X (clean_output (strip (py ''I cannot process this''))) = None"
    unfolding c by (simp add: demo_def calm_def py_def)
  from parse_fallback [OF 1 2 3 4] show ?thesis unfolding c .
qed

section \<open>The stages of a request\<close>

lemma fetch_launch_failure:
  "chrome_error X chrome_options = Some e \<Longrightarrow>
   fetch_profile_html X u w = (Inl (HTTPException 500 (py ''Selenium init failed: '' @ e)), w)"
  by (simp add: fetch_profile_html_def and_then_def init_driver_def)

lemma fetch_get_failure:
  "chrome_error X chrome_options = None \<Longrightarrow> get_error X u = Some e \<Longrightarrow> quit_error X = None \<Longrightarrow>
   fst (fetch_profile_html X u w) = Inl (Exception e)"
  by (simp add: fetch_profile_html_def and_then_def init_driver_def try_finally_def
      driver_get_def driver_quit_def Let_def)

lemma fetch_success:
  assumes "chrome_error X chrome_options = None" "get_error X u = None"
    "save_screenshot X (path_join (getcwd X) (py ''profile_ss.png'')) = Inr shot"
    "page_source X u = Inr html" "quit_error X = None"
  shows "fst (fetch_profile_html X u w) = Inr html"
    and "files (snd (fetch_profile_html X u w)) =
          (case shot of None \<Rightarrow> files w
           | Some png \<Rightarrow> (files w)(path_join (getcwd X) (py ''profile_ss.png'') \<mapsto> png))"
  using assms
  by (auto simp: fetch_profile_html_def and_then_def init_driver_def try_finally_def
      driver_get_def time_sleep_def driver_save_screenshot_def driver_page_source_def
      driver_quit_def Let_def record_event_def split: option.splits)

lemma extract_success:
  assumes "100 \<le> length (strip text)" "chat_groq_error X (llm_settings w) = None"
    "invoke X (llm_settings w) (prompt_template @ text) = Inr answer"
  shows "fst (extract_profile_data X text w) = Inr (parse_output X (strip answer))"
  using assms
  by (auto simp: extract_profile_data_def and_then_def new_chat_groq_def chain_invoke_def)

lemma extract_files: "files (snd (extract_profile_data X text w)) = files w"
  by (simp add: extract_profile_data_def and_then_def new_chat_groq_def chain_invoke_def
      record_event_def split: option.splits sum.splits)

lemma save_json_open_failure:
  assumes "files w (path_join (getcwd X) filename) = None"
    "open_error X (path_join (getcwd X) filename) = Some e"
  shows "fst (save_json X v filename w) = Inl (Exception e)"
  using assms by (simp add: save_json_def Let_def and_then_def open_w_def)

lemma save_json_success:
  assumes "files w (path_join (getcwd X) filename) = None"
    "open_error X (path_join (getcwd X) filename) = None"
    "write_error X (path_join (getcwd X) filename) (json_dump X v) = None"
  shows "fst (save_json X v filename w) = Inr (path_join (getcwd X) filename)"
  using assms by (simp add: save_json_def Let_def and_then_def open_w_def dump_to_def)

lemma scrape_profile_steps:
  "scrape_profile X username w =
    (case fetch_profile_html X (profile_url_of username) w of
       (Inl e, w1) \<Rightarrow> (Inl e, w1)
     | (Inr html, w1) \<Rightarrow>
        (case clean_html X html of
           Inl e \<Rightarrow> (Inl e, w1)
         | Inr text \<Rightarrow>
            (case extract_profile_data X text w1 of
               (Inl e, w2) \<Rightarrow> (Inl e, w2)
             | (Inr extracted, w2) \<Rightarrow>
                (case save_json X extracted (py ''profile_data.json'') w2 of
                   (Inl e, w3) \<Rightarrow> (Inl e, w3)
                 | (Inr path, w3) \<Rightarrow>
                     (Inr \<lparr>success = True, url = profile_url_of username,
                           screenshot = py ''profile_ss.png'', json_path = path,
                           data = extracted\<rparr>, w3)))))"
  by (simp add: scrape_profile_def Let_def and_then_def split: prod.splits sum.splits)

lemma strip_150: "strip (replicate 150 97) = replicate 150 97"
  by (simp add: strip_replicate isspace_def)

lemma clean_name_A: \<open>clean_output (strip (py ''{"name":"A"}'')) = py ''{"name":"A"}''\<close>
  by (simp add: clean_output_def strip_def isspace_def py_def startswith_def)

lemma sample_parser_demo_page:
  "sample_parser demo_page = Inr [Tag (py ''p'') [] [Text NavigableString (replicate 150 97)]]"
proof -
  have "(150::nat) = Suc 149" by simp
  then have "replicate 150 (97::nat) = 97 # replicate 149 97" by (simp only: replicate_Suc)
  then have d: "demo_page = 60 # 112 # 62 # 97 # (replicate 149 97 @ py ''</p>'')"
    by (simp add: demo_page_def py_def del: replicate.simps)
  have "demo_page \<noteq> []" \<open>demo_page \<noteq> py ''<script>a</script><p>a</p>''\<close>
    \<open>demo_page \<noteq> py ''<style media="all">p {color: red}</style><p id="x">a</p>''\<close>
    \<open>demo_page \<noteq> py ''<p>&lt;b&gt;</p>''\<close> \<open>demo_page \<noteq> py ''<![xyz]]>''\<close>
    unfolding d by (simp_all add: py_def)
  then show ?thesis by (simp add: sample_parser_def)
qed

lemma get_text_paragraph:
  "get_text (py ''\<newline>'')
     (concat (map (decompose removed_tags)
        [Tag (py ''p'') [] [Text NavigableString (replicate 150 97)]])) = replicate 150 97"
proof -
  have "py ''p'' \<notin> set removed_tags" by (simp add: removed_tags_def py_def)
  then show ?thesis
    by (simp add: get_text_def stripped_strings_def strip_replicate isspace_def
        del: replicate.simps)
qed

lemma demo_clean:
  "html_parser X = sample_parser \<Longrightarrow> clean_html X demo_page = Inr (replicate 150 97)"
  by (simp only: clean_html_def sample_parser_demo_page get_text_paragraph sum.case)

lemma demo_parse: \<open>parse_output demo (strip (py ''{"name":"A"}'')) = JDict [(py ''name'', JStr (py ''A''))]\<close>
  by (simp add: parse_output_def clean_name_A) (simp add: demo_def)

lemma demo_paths:
  "path_join (py ''/app'') (py ''profile_data.json'') = py ''/app/profile_data.json''"
  "path_join (py ''/app'') (py ''profile_ss.png'') = py ''/app/profile_ss.png''"
  by (simp_all add: path_join_def py_def startswith_def)

text \<open>The three stages in an environment that agrees with \<open>demo\<close> up to the sink.\<close>

lemma demo_like_stages:
  assumes X: "chrome_error X = chrome_error demo" "get_error X = get_error demo"
    "save_screenshot X = save_screenshot demo" "page_source X = page_source demo"
    "quit_error X = quit_error demo" "html_parser X = html_parser demo"
    "chat_groq_error X = chat_groq_error demo" "invoke X = invoke demo"
    "json_loads X = json_loads demo" "getcwd X = getcwd demo"
  obtains w1 w2 where
    "fetch_profile_html X u start = (Inr demo_page, w1)"
    "clean_html X demo_page = Inr (replicate 150 97)"
    "extract_profile_data X (replicate 150 97) w1 = (Inr (JDict [(py ''name'', JStr (py ''A''))]), w2)"
    "files w2 (py ''/app/profile_data.json'') = None"
proof -
  let ?p = "path_join (getcwd X) (py ''profile_ss.png'')"
  have c: "clean_html X demo_page = Inr (replicate 150 97)"
    using X by (intro demo_clean) (simp add: demo_fields)
  have po: "parse_output X = parse_output demo"
    using X by (intro ext) (simp add: parse_output_def)
  have f: "fst (fetch_profile_html X u start) = Inr demo_page"
    and ff: "files (snd (fetch_profile_html X u start)) = (files start)(?p \<mapsto> py ''png'')"
    using fetch_success [of X u "Some (py ''png'')" demo_page start] X
    by (simp_all add: demo_fields)
  define w1 where "w1 = snd (fetch_profile_html X u start)"
  have 1: "fetch_profile_html X u start = (Inr demo_page, w1)"
    using f by (simp add: w1_def prod_eq_iff)
  have e: "fst (extract_profile_data X (replicate 150 97) w1) =
             Inr (JDict [(py ''name'', JStr (py ''A''))])"
    using extract_success [of "replicate 150 97" X w1 \<open>py ''{"name":"A"}''\<close>] X
    by (simp add: strip_150 demo_fields po demo_parse del: replicate.simps)
  define w2 where "w2 = snd (extract_profile_data X (replicate 150 97) w1)"
  have 2: "extract_profile_data X (replicate 150 97) w1 = (Inr (JDict [(py ''name'', JStr (py ''A''))]), w2)"
    using e by (simp add: w2_def prod_eq_iff del: replicate.simps)
  have "files w2 = files w1" by (simp add: w2_def extract_files)
  then have 3: "files w2 (py ''/app/profile_data.json'') = None"
    using ff X by (simp add: w1_def demo_fields demo_paths start_def) (simp add: py_def)
  from 1 c 2 3 that show thesis by blast
qed

lemma demo_run:
  "fst (scrape_profile demo (py ''jdoe123'') start) =
     Inr \<lparr>success = True, url = py ''https://www.naukri.com/code360/profile/jdoe123'',
          screenshot = py ''profile_ss.png'', json_path = py ''/app/profile_data.json'',
          data = JDict [(py ''name'', JStr (py ''A''))]\<rparr>"
proof -
  let ?rec = "JDict [(py ''name'', JStr (py ''A''))]"
  have u: "profile_url_of (py ''jdoe123'') = py ''https://www.naukri.com/code360/profile/jdoe123''"
    by (simp add: profile_url_of_def py_def startswith_def)
  obtain w1 w2 where
    1: "fetch_profile_html demo (py ''https://www.naukri.com/code360/profile/jdoe123'') start = (Inr demo_page, w1)" and
    c: "clean_html demo demo_page = Inr (replicate 150 97)" and
    2: "extract_profile_data demo (replicate 150 97) w1 = (Inr ?rec, w2)" and
    3: "files w2 (py ''/app/profile_data.json'') = None"
    by (rule demo_like_stages [of demo]) simp_all
  have "fst (save_json demo ?rec (py ''profile_data.json'') w2) = Inr (py ''/app/profile_data.json'')"
    using save_json_success [of w2 demo "py ''profile_data.json''" ?rec] 3
    by (simp add: demo_fields demo_paths)
  then obtain w3 where s: "save_json demo ?rec (py ''profile_data.json'') w2
          = (Inr (py ''/app/profile_data.json''), w3)"
    by (metis prod.collapse)
  show ?thesis
    by (simp add: scrape_profile_steps u 1 c 2 s del: replicate.simps)
qed

lemma denied_run:
  "fst (scrape_profile denied (py ''jdoe123'') start) = Inl (Exception (py ''Permission denied''))"
proof -
  let ?rec = "JDict [(py ''name'', JStr (py ''A''))]"
  obtain w1 w2 where
    1: "fetch_profile_html denied (profile_url_of (py ''jdoe123'')) start = (Inr demo_page, w1)" and
    c: "clean_html denied demo_page = Inr (replicate 150 97)" and
    2: "extract_profile_data denied (replicate 150 97) w1 = (Inr ?rec, w2)" and
    3: "files w2 (py ''/app/profile_data.json'') = None"
    by (rule demo_like_stages [of denied]) (simp_all add: denied_def)
  have "fst (save_json denied ?rec (py ''profile_data.json'') w2) = Inl (Exception (py ''Permission denied''))"
    using save_json_open_failure [of w2 denied "py ''profile_data.json''" "py ''Permission denied''" ?rec] 3
    by (simp add: denied_def demo_fields demo_paths)
  then obtain w3 where s: "save_json denied ?rec (py ''profile_data.json'') w2
          = (Inl (Exception (py ''Permission denied'')), w3)"
    by (metis prod.collapse)
  show ?thesis
    by (simp add: scrape_profile_steps 1 c 2 s del: replicate.simps)
qed

lemma scrape_profile_fetch_failure:
  assumes "fst (fetch_profile_html X (profile_url_of username) w) = Inl e"
  shows "fst (scrape_profile X username w) = Inl e"
proof -
  obtain w1 where "fetch_profile_html X (profile_url_of username) w = (Inl e, w1)"
    using assms by (metis prod.collapse)
  then show ?thesis by (simp add: scrape_profile_steps)
qed

lemma scrape_profile_insufficient:
  assumes "fst (fetch_profile_html X (profile_url_of username) w) = Inr html"
    and "clean_html X html = Inr text"
    and "length (strip text) < 100"
  shows "fst (scrape_profile X username w) = Inl insufficient"
proof -
  obtain w1 where "fetch_profile_html X (profile_url_of username) w = (Inr html, w1)"
    using assms(1) by (metis prod.collapse)
  moreover have "extract_profile_data X text w1 = (Inl insufficient, w1)"
    using assms(3) by (simp add: extract_profile_data_def)
  ultimately show ?thesis using assms(2) by (simp add: scrape_profile_steps)
qed

section \<open>URL resolution\<close>

text \<open>
  Claim C3. An identifier that contains the host \<open>naukri.com\<close> is the profile URL as it
  is; any other identifier is appended to the fixed prefix. The URL so obtained is the one
  in the response. The witness resolves \<open>jdoe123\<close> and the full URL of the same profile.
\<close>

theorem url_resolution:
  "((\<exists>p q. username = p @ py ''naukri.com'' @ q) \<longrightarrow> profile_url_of username = username) \<and>
   ((\<nexists>p q. username = p @ py ''naukri.com'' @ q) \<longrightarrow>
      profile_url_of username = py ''https://www.naukri.com/code360/profile/'' @ username) \<and>
   (scrape_profile X username w = (Inr r, w') \<longrightarrow> url r = profile_url_of username)"
proof -
  have "scrape_profile X username w = (Inr r, w') \<Longrightarrow> url r = profile_url_of username"
    unfolding scrape_profile_steps
    by (auto split: prod.splits sum.splits)
  then show ?thesis
    by (simp add: profile_url_of_def contains_iff)
qed

theorem url_resolution_witness:
  "profile_url_of (py ''jdoe123'') = py ''https://www.naukri.com/code360/profile/jdoe123'' \<and>
   profile_url_of (py ''https://www.naukri.com/code360/profile/jdoe123'') =
     py ''https://www.naukri.com/code360/profile/jdoe123'' \<and>
   map_sum id url (fst (scrape_profile demo (py ''jdoe123'') start)) =
     Inr (py ''https://www.naukri.com/code360/profile/jdoe123'')"
proof -
  have a: "\<nexists>p q. py ''jdoe123'' = p @ py ''naukri.com'' @ q"
    unfolding contains_iff [symmetric] by (simp add: py_def startswith_def)
  have b: "\<exists>p q. py ''https://www.naukri.com/code360/profile/jdoe123'' = p @ py ''naukri.com'' @ q"
    unfolding contains_iff [symmetric] by (simp add: py_def startswith_def)
  obtain r w' where c: "scrape_profile demo (py ''jdoe123'') start = (Inr r, w')"
    using demo_run by (metis prod.collapse)
  from a url_resolution [of "py ''jdoe123''"]
  have 1: "profile_url_of (py ''jdoe123'') = py ''https://www.naukri.com/code360/profile/'' @ py ''jdoe123''"
    by blast
  from b url_resolution [of "py ''https://www.naukri.com/code360/profile/jdoe123''"]
  have 2: "profile_url_of (py ''https://www.naukri.com/code360/profile/jdoe123'') =
     py ''https://www.naukri.com/code360/profile/jdoe123''"
    by blast
  from c url_resolution [of "py ''jdoe123''" demo start r w']
  have 3: "url r = profile_url_of (py ''jdoe123'')" by blast
  from 1 have t: "profile_url_of (py ''jdoe123'') = py ''https://www.naukri.com/code360/profile/jdoe123''"
    by (simp add: py_def)
  from t 2 3 c show ?thesis by simp
qed

section \<open>How failures reach the caller\<close>

text \<open>
  A browser that does not start, a page that cannot be reached and a file that cannot be
  opened all end in status 500: the renderer's failures are not told apart from other
  unexpected failures.
\<close>

theorem renderer_failure_counterexample:
  "failure_status (scrape_profile no_chrome (py ''jdoe123'') start) = Some 500 \<and>
   failure_status (scrape_profile offline (py ''jdoe123'') start) = Some 500 \<and>
   failure_status (scrape_profile denied (py ''jdoe123'') start) = Some 500"
proof -
  have "chrome_error no_chrome chrome_options = Some (py ''chrome not found'')"
    by (simp add: no_chrome_def)
  then have 1: "failure_status (scrape_profile no_chrome (py ''jdoe123'') start) = Some 500"
    by (simp add: scrape_profile_steps fetch_launch_failure failure_status_def)
  have "fst (fetch_profile_html offline (profile_url_of (py ''jdoe123'')) start) =
          Inl (Exception (py ''net::ERR_NAME_NOT_RESOLVED''))"
    by (rule fetch_get_failure) (simp_all add: offline_def demo_fields)
  then have 2: "failure_status (scrape_profile offline (py ''jdoe123'') start) = Some 500"
    by (simp add: scrape_profile_fetch_failure failure_status_def)
  have 3: "failure_status (scrape_profile denied (py ''jdoe123'') start) = Some 500"
    by (simp add: failure_status_def denied_run)
  from 1 2 3 show ?thesis by simp
qed

text \<open>
  Claim C6, amended. When the browser does not start, \<open>init_driver\<close> turns the exception
  into an \<open>HTTPException\<close> with status 500 and the detail \<open>Selenium init failed:\<close>
  followed by the message, and nothing else has happened. When the navigation fails, the
  exception leaves the route as it was raised, which the framework answers with status 500.
  The bad-input exception of the guard has status 400, so it differs from both.
\<close>

theorem renderer_failure_status:
  "(chrome_error X chrome_options = Some e \<longrightarrow>
      scrape_profile X username w =
        (Inl (HTTPException 500 (py ''Selenium init failed: '' @ e)), w) \<and>
      failure_status (scrape_profile X username w) = Some 500) \<and>
   (chrome_error X chrome_options = None \<and> get_error X (profile_url_of username) = Some e \<and>
    quit_error X = None \<longrightarrow>
      fst (scrape_profile X username w) = Inl (Exception e) \<and>
      failure_status (scrape_profile X username w) = Some 500) \<and>
   (fst (scrape_profile X username w) = Inl insufficient \<longrightarrow>
      failure_status (scrape_profile X username w) = Some 400)"
proof -
  have a: "chrome_error X chrome_options = Some e \<Longrightarrow>
      scrape_profile X username w =
        (Inl (HTTPException 500 (py ''Selenium init failed: '' @ e)), w)"
    by (simp add: scrape_profile_steps fetch_launch_failure)
  have b: "fst (scrape_profile X username w) = Inl (Exception e)"
    if "chrome_error X chrome_options = None" "get_error X (profile_url_of username) = Some e"
      "quit_error X = None"
  proof -
    from that have "fst (fetch_profile_html X (profile_url_of username) w) = Inl (Exception e)"
      by (rule fetch_get_failure)
    then show ?thesis
      by (rule scrape_profile_fetch_failure)
  qed
  show ?thesis
    using a b by (auto simp: failure_status_def insufficient_def)
qed

theorem renderer_failure_status_witness:
  "scrape_profile no_chrome (py ''jdoe123'') start =
     (Inl (HTTPException 500 (py ''Selenium init failed: chrome not found'')), start) \<and>
   fst (scrape_profile offline (py ''jdoe123'') start) =
     Inl (Exception (py ''net::ERR_NAME_NOT_RESOLVED'')) \<and>
   failure_status (scrape_profile calm (py ''jdoe123'') start) = Some 400"
proof -
  let ?u = "py ''jdoe123''"
  let ?E = calm
  have 1: "chrome_error no_chrome chrome_options = Some (py ''chrome not found'')"
    by (simp add: no_chrome_def)
  have 2: "chrome_error offline chrome_options = None \<and>
           get_error offline (profile_url_of ?u) = Some (py ''net::ERR_NAME_NOT_RESOLVED'') \<and>
           quit_error offline = None"
    by (simp add: offline_def demo_fields)
  have f: "fst (fetch_profile_html ?E (profile_url_of ?u) start) = Inr []"
    by (rule fetch_success(1) [where shot = "Some (py ''png'')"]) (simp_all add: calm_def)
  have c: "clean_html ?E [] = Inr []"
    by (simp add: clean_html_def calm_def sample_parser_def get_text_def stripped_strings_def)
  have 3: "fst (scrape_profile ?E ?u start) = Inl insufficient"
    using f c by (rule scrape_profile_insufficient) simp
  from 1 renderer_failure_status [of no_chrome "py ''chrome not found''" ?u start]
  have A: "scrape_profile no_chrome ?u start =
     (Inl (HTTPException 500 (py ''Selenium init failed: '' @ py ''chrome not found'')), start)"
    by blast
  from 2 renderer_failure_status [of offline "py ''net::ERR_NAME_NOT_RESOLVED''" ?u start]
  have B: "fst (scrape_profile offline ?u start) = Inl (Exception (py ''net::ERR_NAME_NOT_RESOLVED''))"
    by blast
  from 3 renderer_failure_status [of ?E _ ?u start]
  have C: "failure_status (scrape_profile ?E ?u start) = Some 400"
    by blast
  from A B C show ?thesis by (simp add: py_def)
qed

text \<open>
  When the output file cannot be opened after a successful extraction, the request ends
  with the exception of \<open>open\<close>: there is no response, and so no record in it.
\<close>

theorem sink_failure_counterexample:
  "fst (scrape_profile denied (py ''jdoe123'') start) = Inl (Exception (py ''Permission denied'')) \<and>
   failure_status (scrape_profile denied (py ''jdoe123'') start) = Some 500"
  by (simp add: denied_run failure_status_def)

text \<open>
  Claim C7, amended. When the page was fetched, cleaned and the record extracted, and
  \<open>save_json\<close> raises, the request fails with that exception; the record is not returned.
\<close>

theorem sink_failure_propagates:
  assumes "fetch_profile_html X (profile_url_of username) w = (Inr html, w1)"
    and "clean_html X html = Inr text"
    and "extract_profile_data X text w1 = (Inr extracted, w2)"
    and "save_json X extracted (py ''profile_data.json'') w2 = (Inl e, w3)"
  shows "scrape_profile X username w = (Inl e, w3)"
  using assms by (simp add: scrape_profile_steps)

theorem sink_failure_propagates_witness:
  "scrape_profile denied (py ''jdoe123'') start =
     (Inl (Exception (py ''Permission denied'')), snd (scrape_profile denied (py ''jdoe123'') start))"
proof -
  let ?rec = "JDict [(py ''name'', JStr (py ''A''))]"
  obtain w1 w2 where
    1: "fetch_profile_html denied (profile_url_of (py ''jdoe123'')) start = (Inr demo_page, w1)" and
    c: "clean_html denied demo_page = Inr (replicate 150 97)" and
    2: "extract_profile_data denied (replicate 150 97) w1 = (Inr ?rec, w2)" and
    3: "files w2 (py ''/app/profile_data.json'') = None"
    by (rule demo_like_stages [of denied]) (simp_all add: denied_def)
  have "fst (save_json denied ?rec (py ''profile_data.json'') w2) = Inl (Exception (py ''Permission denied''))"
    using save_json_open_failure [of w2 denied "py ''profile_data.json''" "py ''Permission denied''" ?rec] 3
    by (simp add: denied_def demo_fields demo_paths)
  then obtain w3 where s: "save_json denied ?rec (py ''profile_data.json'') w2
          = (Inl (Exception (py ''Permission denied'')), w3)"
    by (metis prod.collapse)
  from sink_failure_propagates [OF 1 c 2 s] show ?thesis by simp
qed

section \<open>The browser session of a request\<close>

lemma disciplined_neutral_only: "\<forall>e\<in>set ns. neutral e \<Longrightarrow> disciplined S ns = (S = {})"
proof (induction ns)
  case Nil
  then show ?case by simp
next
  case (Cons e ns)
  then show ?case by (cases e) simp_all
qed

lemma disciplined_append_neutral:
  "\<forall>e\<in>set ns. neutral e \<Longrightarrow> disciplined S (es @ ns) = disciplined S es"
proof (induction es arbitrary: S)
  case Nil
  then show ?case by (simp add: disciplined_neutral_only)
next
  case (Cons e es)
  then show ?case by (cases e) simp_all
qed

text \<open>The calls of the fetch stage.\<close>

lemma fetch_trace_failed_launch:
  assumes "chrome_error X chrome_options \<noteq> None"
  shows "snd (fetch_profile_html X u w) = w"
  using assms by (auto simp: fetch_profile_html_def and_then_def init_driver_def)

lemma fetch_trace_launched:
  assumes "chrome_error X chrome_options = None"
  shows "\<exists>mid. history (snd (fetch_profile_html X u w)) =
            history w @ Chrome chrome_options (started w) # mid @ [Quit (started w)] \<and>
          (\<forall>e\<in>set mid. neutral e \<or> e = Get (started w) u \<or> e = PageSource (started w) \<or>
             e = SaveScreenshot (started w) (path_join (getcwd X) (py ''profile_ss.png'')))"
    and "sessions (snd (fetch_profile_html X u w)) = sessions w - {started w}"
    and "started (snd (fetch_profile_html X u w)) = Suc (started w)"
proof -
  let ?d = "started w"
  let ?w0 = "record_event (Chrome chrome_options ?d)
             (w\<lparr>sessions := insert ?d (sessions w), started := Suc ?d\<rparr>)"
  let ?body = "and_then (driver_get X ?d u) (\<lambda>_.
          and_then (time_sleep 5) (\<lambda>_.
          and_then (driver_save_screenshot X ?d (path_join (getcwd X) (py ''profile_ss.png''))) (\<lambda>_.
          driver_page_source X ?d u)))"
  have f: "fetch_profile_html X u w = try_finally ?body (driver_quit X ?d) ?w0"
    using assms by (simp add: fetch_profile_html_def and_then_def init_driver_def)
  have b: "\<exists>mid. history (snd (?body ?w0)) = history ?w0 @ mid \<and>
          (\<forall>e\<in>set mid. neutral e \<or> e = Get ?d u \<or> e = PageSource ?d \<or>
             e = SaveScreenshot ?d (path_join (getcwd X) (py ''profile_ss.png'')))"
    and bs: "sessions (snd (?body ?w0)) = sessions ?w0" "started (snd (?body ?w0)) = started ?w0"
    by (auto simp: and_then_def driver_get_def time_sleep_def driver_save_screenshot_def
        driver_page_source_def record_event_def split: option.splits sum.splits)
  have q: "history (snd (try_finally ?body (driver_quit X ?d) ?w0)) =
           history (snd (?body ?w0)) @ [Quit ?d]"
    "sessions (snd (try_finally ?body (driver_quit X ?d) ?w0)) = sessions (snd (?body ?w0)) - {?d}"
    "started (snd (try_finally ?body (driver_quit X ?d) ?w0)) = started (snd (?body ?w0))"
    by (auto simp: try_finally_def driver_quit_def record_event_def Let_def
        split: prod.splits option.splits sum.splits)
  from b obtain mid where m: "history (snd (?body ?w0)) = history ?w0 @ mid"
    "\<forall>e\<in>set mid. neutral e \<or> e = Get ?d u \<or> e = PageSource ?d \<or>
             e = SaveScreenshot ?d (path_join (getcwd X) (py ''profile_ss.png''))"
    by blast
  have "history (snd (fetch_profile_html X u w)) =
          history w @ Chrome chrome_options ?d # mid @ [Quit ?d]"
    unfolding f q m by (simp add: record_event_def)
  with m(2) show "\<exists>mid. history (snd (fetch_profile_html X u w)) =
            history w @ Chrome chrome_options (started w) # mid @ [Quit (started w)] \<and>
          (\<forall>e\<in>set mid. neutral e \<or> e = Get (started w) u \<or> e = PageSource (started w) \<or>
             e = SaveScreenshot (started w) (path_join (getcwd X) (py ''profile_ss.png'')))"
    by blast
  show "sessions (snd (fetch_profile_html X u w)) = sessions w - {started w}"
    unfolding f q bs by (simp add: record_event_def)
  show "started (snd (fetch_profile_html X u w)) = Suc (started w)"
    unfolding f q bs by (simp add: record_event_def)
qed

lemma extract_trace:
  "\<exists>ns. history (snd (extract_profile_data X text w)) = history w @ ns \<and> (\<forall>e\<in>set ns. neutral e)"
  "sessions (snd (extract_profile_data X text w)) = sessions w"
  "started (snd (extract_profile_data X text w)) = started w"
  by (auto simp: extract_profile_data_def and_then_def new_chat_groq_def chain_invoke_def
      record_event_def split: option.splits sum.splits)

lemma save_json_trace:
  "\<exists>ns. history (snd (save_json X v filename w)) = history w @ ns \<and> (\<forall>e\<in>set ns. neutral e)"
  "sessions (snd (save_json X v filename w)) = sessions w"
  "started (snd (save_json X v filename w)) = started w"
  by (auto simp: save_json_def Let_def and_then_def os_remove_def open_w_def dump_to_def
      record_event_def split: option.splits sum.splits prod.splits)


lemma disciplined_session:
  assumes "\<forall>e\<in>set mid. neutral e \<or> e = Get d u \<or> e = PageSource d \<or> e = SaveScreenshot d p"
  shows "disciplined {d} (mid @ [Quit d])"
  using assms
proof (induction mid)
  case Nil
  then show ?case by simp
next
  case (Cons e mid)
  then have "neutral e \<or> e = Get d u \<or> e = PageSource d \<or> e = SaveScreenshot d p" by simp
  moreover have "disciplined {d} (mid @ [Quit d])" using Cons by simp
  ultimately show ?case by (cases e) auto
qed

lemma scrape_after_fetch:
  "\<exists>ns. history (snd (scrape_profile X username w)) =
          history (snd (fetch_profile_html X (profile_url_of username) w)) @ ns \<and>
        (\<forall>e\<in>set ns. neutral e)"
  "sessions (snd (scrape_profile X username w)) =
     sessions (snd (fetch_profile_html X (profile_url_of username) w))"
proof -
  obtain r1 w1 where f: "fetch_profile_html X (profile_url_of username) w = (r1, w1)"
    by (cases "fetch_profile_html X (profile_url_of username) w")
  have "(\<exists>ns. history (snd (scrape_profile X username w)) = history w1 @ ns \<and>
        (\<forall>e\<in>set ns. neutral e)) \<and> sessions (snd (scrape_profile X username w)) = sessions w1"
  proof (cases r1)
    case (Inl e)
    with f show ?thesis by (simp add: scrape_profile_steps)
  next
    case (Inr html)
    show ?thesis
    proof (cases "clean_html X html")
      case (Inl e)
      with f Inr show ?thesis by (simp add: scrape_profile_steps)
    next
      case c: (Inr cleaned)
      obtain r2 w2 where e: "extract_profile_data X cleaned w1 = (r2, w2)"
        by (cases "extract_profile_data X cleaned w1")
      from extract_trace [of X cleaned w1] e
      obtain ns2 where n2: "history w2 = history w1 @ ns2" "\<forall>e\<in>set ns2. neutral e"
        and s2: "sessions w2 = sessions w1"
        by auto
      show ?thesis
      proof (cases r2)
        case (Inl e2)
        with f Inr c e n2 s2 show ?thesis by (simp add: scrape_profile_steps)
      next
        case r2: (Inr extracted)
        obtain r3 w3 where s: "save_json X extracted (py ''profile_data.json'') w2 = (r3, w3)"
          by (cases "save_json X extracted (py ''profile_data.json'') w2")
        from save_json_trace [of X extracted "py ''profile_data.json''" w2] s
        obtain ns3 where n3: "history w3 = history w2 @ ns3" "\<forall>e\<in>set ns3. neutral e"
          and s3: "sessions w3 = sessions w2"
          by auto
        have w: "snd (scrape_profile X username w) = w3"
          using f Inr c e r2 s by (cases r3) (simp_all add: scrape_profile_steps)
        have "history w3 = history w1 @ (ns2 @ ns3)" using n2 n3 by simp
        moreover have "\<forall>e\<in>set (ns2 @ ns3). neutral e" using n2 n3 by auto
        ultimately show ?thesis using w s2 s3 by metis
      qed
    qed
  qed
  with f show "\<exists>ns. history (snd (scrape_profile X username w)) =
          history (snd (fetch_profile_html X (profile_url_of username) w)) @ ns \<and>
        (\<forall>e\<in>set ns. neutral e)"
    and "sessions (snd (scrape_profile X username w)) =
     sessions (snd (fetch_profile_html X (profile_url_of username) w))"
    by simp_all
qed

text \<open>
  Claim C9. The calls a request makes treat the browser with discipline: when the browser
  starts, the first call of the request starts a session that was never used before, every
  call that drives it comes before its \<open>quit\<close>, the \<open>quit\<close> is made on every path,
  whatever fails afterwards, and no session is alive at the end; when the browser does not
  start, no session was acquired. The set of sessions alive after the request is the set
  before it.
\<close>

theorem renderer_released:
  "(\<exists>evs. history (snd (scrape_profile X username w)) = history w @ evs \<and> disciplined {} evs \<and>
      (chrome_error X chrome_options \<noteq> None \<longrightarrow> (\<forall>e\<in>set evs. neutral e)) \<and>
      (chrome_error X chrome_options = None \<longrightarrow>
         (\<exists>rest. evs = Chrome chrome_options (started w) # rest) \<and> Quit (started w) \<in> set evs)) \<and>
   ((\<forall>d\<in>sessions w. d < started w) \<longrightarrow>
      sessions (snd (scrape_profile X username w)) = sessions w)"
proof -
  let ?u = "profile_url_of username"
  let ?d = "started w"
  from scrape_after_fetch(1) [of X username w]
  obtain ns where ns: "history (snd (scrape_profile X username w)) =
      history (snd (fetch_profile_html X ?u w)) @ ns" "\<forall>e\<in>set ns. neutral e"
    by blast
  note ss = scrape_after_fetch(2) [of X username w]
  show ?thesis
  proof (cases "chrome_error X chrome_options = None")
    case False
    then have "snd (fetch_profile_html X ?u w) = w" by (rule fetch_trace_failed_launch)
    with ns ss False show ?thesis
      by (auto simp: disciplined_neutral_only)
  next
    case True
    from fetch_trace_launched(1) [OF True, of ?u w]
    obtain mid where m: "history (snd (fetch_profile_html X ?u w)) =
            history w @ Chrome chrome_options ?d # mid @ [Quit ?d]"
      "\<forall>e\<in>set mid. neutral e \<or> e = Get ?d ?u \<or> e = PageSource ?d \<or>
             e = SaveScreenshot ?d (path_join (getcwd X) (py ''profile_ss.png''))"
      by blast
    let ?evs = "Chrome chrome_options ?d # (mid @ [Quit ?d]) @ ns"
    have h: "history (snd (scrape_profile X username w)) = history w @ ?evs"
      using ns m by simp
    have "disciplined {?d} (mid @ [Quit ?d])" using m(2) by (rule disciplined_session)
    then have "disciplined {?d} ((mid @ [Quit ?d]) @ ns)"
      using ns(2) by (simp only: disciplined_append_neutral)
    then have d: "disciplined {} ?evs" by simp
    have q: "Quit ?d \<in> set ?evs" by simp
    have s: "sessions (snd (scrape_profile X username w)) = sessions w - {?d}"
      using ss fetch_trace_launched(2) [OF True, of ?u w] by simp
    have "(\<forall>d\<in>sessions w. d < ?d) \<Longrightarrow> sessions w - {?d} = sessions w" by auto
    with h d q s True show ?thesis by blast
  qed
qed

theorem renderer_released_witness:
  "history (snd (scrape_profile offline (py ''jdoe123'') (start\<lparr>sessions := {0}, started := 2\<rparr>))) =
     [Chrome chrome_options 2, Get 2 (py ''https://www.naukri.com/code360/profile/jdoe123''), Quit 2] \<and>
   disciplined {} (history (snd (scrape_profile offline (py ''jdoe123'')
     (start\<lparr>sessions := {0}, started := 2\<rparr>)))) \<and>
   sessions (snd (scrape_profile offline (py ''jdoe123'') (start\<lparr>sessions := {0}, started := 2\<rparr>))) = {0} \<and>
   history (snd (scrape_profile no_chrome (py ''jdoe123'') start)) = []"
proof -
  let ?u = "py ''jdoe123''"
  let ?w = "start\<lparr>sessions := {0}, started := 2\<rparr>"
  have u: "profile_url_of ?u = py ''https://www.naukri.com/code360/profile/jdoe123''"
    by (simp add: profile_url_of_def py_def startswith_def)
  have c: "chrome_error offline chrome_options = None" by (simp add: offline_def demo_fields)
  have n: "chrome_error no_chrome chrome_options \<noteq> None" by (simp add: no_chrome_def)
  have w: "\<forall>d\<in>sessions ?w. d < started ?w" by simp
  have h0: "history start = []" "history ?w = []" "sessions ?w = {0}" "started ?w = 2"
    by (simp_all add: start_def)
  from renderer_released [of offline ?u ?w] c w h0
  obtain rest where A: "disciplined {} (history (snd (scrape_profile offline ?u ?w)))"
    and B: "sessions (snd (scrape_profile offline ?u ?w)) = {0}"
    and C: "history (snd (scrape_profile offline ?u ?w)) = Chrome chrome_options 2 # rest"
    by auto
  have f: "fetch_profile_html offline (profile_url_of ?u) ?w =
     (Inl (Exception (py ''net::ERR_NAME_NOT_RESOLVED'')),
      \<lparr>environ = Map.empty, files = Map.empty, sessions = {0}, started = 3,
       history = [Chrome chrome_options 2, Get 2 (profile_url_of ?u), Quit 2]\<rparr>)"
    by (simp add: fetch_profile_html_def and_then_def try_finally_def init_driver_def
        driver_get_def driver_quit_def record_event_def offline_def demo_fields start_def Let_def)
  have h: "history (snd (scrape_profile offline ?u ?w)) =
     [Chrome chrome_options 2, Get 2 (py ''https://www.naukri.com/code360/profile/jdoe123''), Quit 2]"
    by (simp add: scrape_profile_steps u f [unfolded u])
  from renderer_released [of no_chrome ?u start] n h0
  obtain evs where e: "history (snd (scrape_profile no_chrome ?u start)) = evs"
    "\<forall>e\<in>set evs. neutral e" by auto
  have "snd (scrape_profile no_chrome ?u start) = start"
    using fetch_launch_failure [of no_chrome "py ''chrome not found''" "profile_url_of ?u" start]
    by (simp add: scrape_profile_steps no_chrome_def)
  then have D: "history (snd (scrape_profile no_chrome ?u start)) = []" by (simp add: h0)
  from h A B D show ?thesis by simp
qed

section \<open>Saving is not atomic\<close>

text \<open>
  Claim C10. When a file exists at the target path and can be removed, \<open>save_json\<close>
  removes it before it opens or writes anything. If then the file cannot be opened, the
  call raises and no file is left at the path; if the writing fails part way, the call
  raises and the file holds the part of the new text written so far. In both cases what
  was there before is gone, whatever it was.
\<close>

theorem save_json_not_atomic:
  assumes "path = path_join (getcwd X) filename"
    and "files w path = Some old"
    and "remove_error X path = None"
  shows "(\<exists>evs. history (snd (save_json X v filename w)) = history w @ Remove path # evs \<and>
            (\<forall>e\<in>set evs. e = OpenW path \<or> e = Dump path (json_dump X v))) \<and>
         (open_error X path = Some e \<longrightarrow>
            fst (save_json X v filename w) = Inl (Exception e) \<and>
            files (snd (save_json X v filename w)) path = None) \<and>
         (open_error X path = None \<and> write_error X path (json_dump X v) = Some (n, e) \<longrightarrow>
            fst (save_json X v filename w) = Inl (Exception e) \<and>
            files (snd (save_json X v filename w)) path = Some (take n (json_dump X v)))"
  using assms
  by (auto simp: save_json_def Let_def and_then_def os_remove_def open_w_def dump_to_def
      record_event_def split: option.splits)

theorem save_json_not_atomic_witness:
  \<open>fst (save_json denied (JDict [(py ''name'', JStr (py ''A''))]) (py ''profile_data.json'')
          (start\<lparr>files := [py ''/app/profile_data.json'' \<mapsto> py ''old'']\<rparr>)) =
     Inl (Exception (py ''Permission denied'')) \<and>
   files (snd (save_json denied (JDict [(py ''name'', JStr (py ''A''))]) (py ''profile_data.json'')
          (start\<lparr>files := [py ''/app/profile_data.json'' \<mapsto> py ''old'']\<rparr>)))
     (py ''/app/profile_data.json'') = None \<and>
   files (snd (save_json (demo\<lparr>write_error := (\<lambda>_ _. Some (3, py ''No space left on device''))\<rparr>)
          (JDict [(py ''name'', JStr (py ''A''))]) (py ''profile_data.json'')
          (start\<lparr>files := [py ''/app/profile_data.json'' \<mapsto> py ''old'']\<rparr>)))
     (py ''/app/profile_data.json'') = Some (py ''{\<newline> '')\<close>
proof -
  let ?p = "py ''/app/profile_data.json''"
  let ?v = "JDict [(py ''name'', JStr (py ''A''))]"
  let ?w = "start\<lparr>files := [?p \<mapsto> py ''old'']\<rparr>"
  let ?F = "demo\<lparr>write_error := (\<lambda>_ _. Some (3, py ''No space left on device''))\<rparr>"
  have p1: "?p = path_join (getcwd denied) (py ''profile_data.json'')"
    by (simp add: denied_def demo_fields demo_paths)
  have p2: "?p = path_join (getcwd ?F) (py ''profile_data.json'')"
    by (simp add: demo_fields demo_paths)
  have f: "files ?w ?p = Some (py ''old'')" by simp
  have r1: "remove_error denied ?p = None" by (simp add: denied_def demo_fields)
  have r2: "remove_error ?F ?p = None" by (simp add: demo_fields)
  have o1: "open_error denied ?p = Some (py ''Permission denied'')" by (simp add: denied_def)
  have o2: "open_error ?F ?p = None \<and>
            write_error ?F ?p (json_dump ?F ?v) = Some (3, py ''No space left on device'')"
    by (simp add: demo_fields)
  have d: \<open>take 3 (json_dump ?F ?v) = py ''{\<newline> ''\<close> by (simp add: demo_def py_def)
  from save_json_not_atomic [OF p1 f r1, where v = ?v and e = "py ''Permission denied''"] o1
  have A: "fst (save_json denied ?v (py ''profile_data.json'') ?w) =
             Inl (Exception (py ''Permission denied'')) \<and>
           files (snd (save_json denied ?v (py ''profile_data.json'') ?w)) ?p = None"
    by blast
  from save_json_not_atomic [OF p2 f r2, where v = ?v and n = 3 and e = "py ''No space left on device''"] o2
  have B: "files (snd (save_json ?F ?v (py ''profile_data.json'') ?w)) ?p =
             Some (take 3 (json_dump ?F ?v))"
    by blast
  from A B d show ?thesis by simp
qed

section \<open>What the cleaned text contains\<close>

lemma ordinary_after_decompose:
  "map snd (filter (\<lambda>(k, s). k = NavigableString \<or> k = CData)
     (concat (map all_strings (decompose removed_tags n)))) = visible_strings n"
proof (induction n)
  case (Text k s)
  then show ?case by simp
next
  case (Tag n as cs)
  show ?case
  proof (cases "n \<in> set removed_tags")
    case True
    then show ?thesis by simp
  next
    case False
    have "map snd (filter (\<lambda>(k, s). k = NavigableString \<or> k = CData)
            (concat (map all_strings (concat (map (decompose removed_tags) cs))))) =
          concat (map visible_strings cs)"
      using Tag.IH
    proof (induction cs)
      case Nil
      then show ?case by simp
    next
      case (Cons c cs)
      then show ?case by simp
    qed
    with False show ?thesis by simp
  qed
qed

lemma stripped_strings_visible:
  "stripped_strings (concat (map (decompose removed_tags) soup)) =
     filter (\<lambda>s. s \<noteq> []) (map strip (concat (map visible_strings soup)))"
proof -
  let ?ys = "filter (\<lambda>(k, s). k = NavigableString \<or> k = CData)
          (concat (map all_strings (concat (map (decompose removed_tags) soup))))"
  have a: "map snd ?ys = concat (map visible_strings soup)"
  proof (induction soup)
    case Nil
    then show ?case by simp
  next
    case (Cons n soup)
    then show ?case by (simp add: ordinary_after_decompose)
  qed
  have b: "map (\<lambda>(k, s). strip s) xs = map strip (map snd xs)"
    for xs :: "(string_kind \<times> str) list"
    by (induction xs) auto
  have "stripped_strings (concat (map (decompose removed_tags) soup)) =
          filter (\<lambda>s. s \<noteq> []) (map strip (map snd ?ys))"
    unfolding stripped_strings_def b ..
  then show ?thesis unfolding a .
qed

lemma same_outside_visible: "same_outside a b \<Longrightarrow> visible_strings a = visible_strings b"
proof (induction rule: same_outside.induct)
  case (kept_same n cs cs' as as')
  from kept_same(2) have "map visible_strings cs = map visible_strings cs'"
    by (induction rule: list_all2_induct) simp_all
  with kept_same(1) show ?case by simp
qed simp_all

lemma same_outside_all_visible:
  "list_all2 same_outside xs ys \<Longrightarrow> map visible_strings xs = map visible_strings ys"
  by (induction rule: list_all2_induct) (simp_all add: same_outside_visible)

lemma set_join: "set (join sep xs) \<subseteq> set sep \<union> \<Union> (set ` set xs)"
  by (induction sep xs rule: join.induct) auto


lemma sample_documents:
  \<open>html_parser calm (py ''<script>a</script><p>a</p>'') =
     Inr [Tag (py ''script'') [] [Text Script (py ''a'')],
          Tag (py ''p'') [] [Text NavigableString (py ''a'')]]\<close>
  \<open>html_parser calm (py ''<style media="all">p {color: red}</style><p id="x">a</p>'') =
     Inr [Tag (py ''style'') [(py ''media'', py ''all'')] [Text Stylesheet (py ''p {color: red}'')],
          Tag (py ''p'') [(py ''id'', py ''x'')] [Text NavigableString (py ''a'')]]\<close>
  \<open>html_parser calm (py ''<p>&lt;b&gt;</p>'') =
     Inr [Tag (py ''p'') [] [Text NavigableString (py ''<b>'')]]\<close>
  \<open>html_parser calm (py ''<![xyz]]>'') =
     Inl (py ''The markup you provided was rejected by the parser.'')\<close>
  by (simp_all add: calm_def sample_parser_def py_def)

lemma sample_cleaned:
  \<open>clean_html calm (py ''<script>a</script><p>a</p>'') = Inr (py ''a'')\<close>
  \<open>clean_html calm (py ''<p>&lt;b&gt;</p>'') = Inr (py ''<b>'')\<close>
  \<open>clean_html calm (py ''<![xyz]]>'') =
     Inl (Exception (py ''The markup you provided was rejected by the parser.''))\<close>
  unfolding clean_html_def sample_documents
  by (simp_all add: removed_tags_def get_text_def stripped_strings_def strip_def isspace_def py_def)

text \<open>
  The parser rejects a malformed marked section, and \<open>clean_html\<close> raises with it. A
  word that stands both in a script and in a paragraph is in the cleaned text, and angle
  brackets that the parser decoded from entities are in it as well.
\<close>

theorem script_text_counterexample:
  \<open>clean_html calm (py ''<![xyz]]>'') =
     Inl (Exception (py ''The markup you provided was rejected by the parser.'')) \<and>
   html_parser calm (py ''<script>a</script><p>a</p>'') =
     Inr [Tag (py ''script'') [] [Text Script (py ''a'')],
          Tag (py ''p'') [] [Text NavigableString (py ''a'')]] \<and>
   py ''a'' \<in> set (removed_strings (Tag (py ''script'') [] [Text Script (py ''a'')])) \<and>
   clean_html calm (py ''<script>a</script><p>a</p>'') = Inr (py ''a'') \<and>
   contains (py ''a'') (py ''a'') \<and>
   clean_html calm (py ''<p>&lt;b&gt;</p>'') = Inr (py ''<b>'')\<close>
  unfolding sample_cleaned sample_documents
  by (simp add: removed_tags_def py_def startswith_def)

text \<open>
  Claim C5, amended. When the parser rejects the markup, \<open>clean_html\<close> raises the
  parser's exception. Otherwise it returns the ordinary strings of the tree that lie
  outside every \<open>script\<close>, \<open>style\<close> and \<open>noscript\<close> element, each stripped, the empty
  ones dropped, joined by newlines. A document that differs from it only below such
  elements, in strings of other classes or in attributes is cleaned to the same text; and
  every character of the result is a separating newline or comes from a string outside
  those elements.
\<close>

theorem clean_html_visible_text:
  "(html_parser X html = Inl e \<longrightarrow> clean_html X html = Inl (Exception e)) \<and>
   (html_parser X html = Inr soup \<longrightarrow>
      clean_html X html =
        Inr (join (py ''\<newline>'') (filter (\<lambda>s. s \<noteq> [])
               (map strip (concat (map visible_strings soup))))) \<and>
      (html_parser Y html' = Inr soup' \<and> list_all2 same_outside soup soup' \<longrightarrow>
         clean_html Y html' = clean_html X html) \<and>
      (\<forall>c. (\<exists>out. clean_html X html = Inr out \<and> c \<in> set out) \<longrightarrow>
         c = 10 \<or> (\<exists>s\<in>set (concat (map visible_strings soup)). c \<in> set s)))"
proof -
  have eq: "clean_html Z m =
     Inr (join (py ''\<newline>'') (filter (\<lambda>s. s \<noteq> [])
       (map strip (concat (map visible_strings t)))))" if "html_parser Z m = Inr t" for Z m t
    using that by (simp add: clean_html_def get_text_def stripped_strings_visible)
  have err: "html_parser X html = Inl e \<Longrightarrow> clean_html X html = Inl (Exception e)"
    by (simp add: clean_html_def)
  have same: "clean_html Y html' = clean_html X html"
    if "html_parser X html = Inr soup" "html_parser Y html' = Inr soup'"
      "list_all2 same_outside soup soup'"
    using same_outside_all_visible [OF that(3)] by (simp add: eq [OF that(1)] eq [OF that(2)])
  have prov: "c = 10 \<or> (\<exists>s\<in>set (concat (map visible_strings soup)). c \<in> set s)"
    if p: "html_parser X html = Inr soup" and o: "clean_html X html = Inr out" "c \<in> set out"
    for c out
  proof -
    let ?vs = "concat (map visible_strings soup)"
    from o eq [OF p]
    have "c \<in> set (join (py ''\<newline>'') (filter (\<lambda>s. s \<noteq> []) (map strip ?vs)))" by simp
    with set_join [of "py ''\<newline>''" "filter (\<lambda>s. s \<noteq> []) (map strip ?vs)"]
    have "c \<in> set (py ''\<newline>'') \<or> (\<exists>t\<in>set (map strip ?vs). c \<in> set t)"
      by auto
    then show ?thesis
    proof
      assume "c \<in> set (py ''\<newline>'')"
      then show ?thesis by (simp add: py_def)
    next
      assume "\<exists>t\<in>set (map strip ?vs). c \<in> set t"
      then obtain s where "s \<in> set ?vs" "c \<in> set (strip s)" by auto
      with set_strip [of s] show ?thesis by blast
    qed
  qed
  from eq [of X html soup] err same prov show ?thesis by blast
qed

theorem clean_html_visible_text_witness:
  \<open>clean_html calm (py ''<![xyz]]>'') =
     Inl (Exception (py ''The markup you provided was rejected by the parser.'')) \<and>
   clean_html calm (py ''<style media="all">p {color: red}</style><p id="x">a</p>'') =
     clean_html calm (py ''<script>a</script><p>a</p>'') \<and>
   (\<exists>s\<in>set (concat (map visible_strings
        [Tag (py ''script'') [] [Text Script (py ''a'')],
         Tag (py ''p'') [] [Text NavigableString (py ''a'')]])). 97 \<in> set s)\<close>
proof -
  let ?bad = \<open>py ''<![xyz]]>''\<close>
  let ?m = \<open>py ''<script>a</script><p>a</p>''\<close>
  let ?m' = \<open>py ''<style media="all">p {color: red}</style><p id="x">a</p>''\<close>
  let ?t = "[Tag (py ''script'') [] [Text Script (py ''a'')],
             Tag (py ''p'') [] [Text NavigableString (py ''a'')]]"
  let ?t' = "[Tag (py ''style'') [(py ''media'', py ''all'')] [Text Stylesheet (py ''p {color: red}'')],
              Tag (py ''p'') [(py ''id'', py ''x'')] [Text NavigableString (py ''a'')]]"
  have r: "py ''script'' \<in> set removed_tags" "py ''style'' \<in> set removed_tags"
    "py ''p'' \<notin> set removed_tags"
    by (simp_all add: removed_tags_def py_def)
  have 0: "html_parser calm ?bad = Inl (py ''The markup you provided was rejected by the parser.'')"
    by (rule sample_documents)
  have 1: "html_parser calm ?m = Inr ?t" by (rule sample_documents)
  have 2: "html_parser calm ?m' = Inr ?t'" by (rule sample_documents)
  have 3: "list_all2 same_outside ?t ?t'"
    by (simp add: r same_outside.removed_same same_outside.kept_same same_outside.text_same)
  have 4: "clean_html calm ?m = Inr (py ''a'') \<and> 97 \<in> set (py ''a'')"
    by (simp add: sample_cleaned) (simp add: py_def)
  from clean_html_visible_text [of calm ?bad _ ?t] 0
  have A: "clean_html calm ?bad = Inl (Exception (py ''The markup you provided was rejected by the parser.''))"
    by blast
  from clean_html_visible_text [of calm ?m _ ?t calm ?m' ?t'] 1 2 3
  have B: "clean_html calm ?m' = clean_html calm ?m" by blast
  from clean_html_visible_text [of calm ?m _ ?t] 1 4
  have "(97::nat) = 10 \<or> (\<exists>s\<in>set (concat (map visible_strings ?t)). 97 \<in> set s)"
    by blast
  then have C: "\<exists>s\<in>set (concat (map visible_strings ?t)). 97 \<in> set s" by simp
  from A B C show ?thesis by blast
qed

section \<open>The credential\<close>

text \<open>
  \<open>extract_profile_data\<close> reads \<open>GROQ_API_KEY\<close> when it is called and hands what it
  finds to the \<open>ChatGroq\<close> constructor; it makes no check of its own. With the variable
  unset and a text that passes the guard, the next call is the construction of the client
  with no key. What happens then is for the client library to decide.
\<close>

lemma absent_key_reaches_constructor:
  assumes "environ w (py ''GROQ_API_KEY'') = None" and "100 \<le> length (strip text)"
  shows "\<exists>evs. history (snd (extract_profile_data X text w)) =
           history w @ ChatGroq \<lparr>groq_api_key = None,
             model_name = py ''llama-3.3-70b-versatile'', temperature = 0\<rparr> # evs"
  using assms
  by (auto simp: extract_profile_data_def and_then_def new_chat_groq_def chain_invoke_def
      record_event_def llm_settings_def split: option.splits sum.splits)

end
